theory Spec2Isabelle
  imports Complex_Main "HOL-Library.AList" "HOL-Library.Log_Nat" "HOL-Library.Multiset"
    "HOL-Library.Product_Lexorder"
begin

section \<open>Python values used by the pipeline\<close>

text \<open>
  The embedding follows \<^verbatim>\<open>src/trend_radar_langgraph.py\<close>. Dictionaries read from JSON are
  records whose fields are options: \<open>d.get(k)\<close> is \<open>None\<close> both for an absent key and for a
  JSON null, and every read in the source goes through \<open>get\<close>. Where the source gives
  \<open>get\<close> a default (\<open>item.get("url", "")\<close>), absent and null differ, and the field is a
  three-valued \<open>field\<close>. Strings are byte strings (UTF-8); integers are \<open>int\<close>; JSON and
  Python floats are embedded in \<open>real\<close> (only their order is used).
\<close>

datatype py_error =
  TypeError | ValueError | JSONDecodeError | OSError | UnicodeEncodeError | OverflowError

datatype 'a field = Absent | Null | Val 'a

text \<open>\<open>d.get(k, default)\<close>: the default only replaces an absent key.\<close>

fun get_default :: "'a field \<Rightarrow> 'a \<Rightarrow> 'a option" where
  "get_default Absent d = Some d"
| "get_default Null d = None"
| "get_default (Val v) d = Some v"

text \<open>\<open>x or d\<close> for an optional string \<open>x\<close>: \<open>None\<close> and the empty string are falsy.\<close>

fun str_or :: "string option \<Rightarrow> string \<Rightarrow> string" where
  "str_or None d = d"
| "str_or (Some s) d = (if s = [] then d else s)"

section \<open>SpiderNode: scraping one platform (lines 196--219)\<close>

record api_item =
  api_title :: "string option"
  api_url :: "string field"
  api_mobileUrl :: "string field"
  api_hotValue :: "real field"

record news_item =
  source_id :: "string option"
  source :: "string option"
  source_name :: "string option"
  title :: "string option"
  rank :: "int option"
  url :: "string option"
  mobile_url :: "string option"
  hot_value :: "real option"

text \<open>The dictionary appended to \<open>news_list\<close> for the item at position \<open>idx\<close>.\<close>

definition make_news :: "string \<Rightarrow> string \<Rightarrow> nat \<times> api_item \<Rightarrow> news_item" where
  "make_news sid sname p =
     \<lparr> source_id = Some sid,
       source = Some sname,
       source_name = Some sname,
       title = api_title (snd p),
       rank = Some (int (fst p)),
       url = get_default (api_url (snd p)) [],
       mobile_url = get_default (api_mobileUrl (snd p)) [],
       hot_value = get_default (api_hotValue (snd p)) 0 \<rparr>"

text \<open>
  \<open>top_items = items[:30]\<close>, then \<open>for idx, item in enumerate(top_items, 1)\<close>.
\<close>

definition scrape_items :: "string \<Rightarrow> string \<Rightarrow> api_item list \<Rightarrow> news_item list" where
  "scrape_items sid sname items =
     (let top_items = take 30 items
      in map (make_news sid sname) (List.enumerate 1 top_items))"

text \<open>
  What \<open>fetch_data\<close> and \<open>json.loads\<close> leave for one platform: no text at all, text that is
  not JSON (the handler of line 217 prints and the platform adds nothing), or an object
  whose \<open>items\<close> (default \<open>[]\<close>) is a list of objects.
\<close>

datatype response = NoData | BadJson | Items "api_item list"

fun scrape_platform :: "string \<times> string \<Rightarrow> response \<Rightarrow> news_item list" where
  "scrape_platform (sid, sname) NoData = []"
| "scrape_platform (sid, sname) BadJson = []"
| "scrape_platform (sid, sname) (Items items) = scrape_items sid sname items"

text \<open>The loop over \<open>self.sources\<close>: each platform extends \<open>news_list\<close>.\<close>

fun scrape_all :: "((string \<times> string) \<times> response) list \<Rightarrow> news_item list" where
  "scrape_all [] = []"
| "scrape_all ((src, resp) # rest) = scrape_platform src resp @ scrape_all rest"

section \<open>SpiderNode: snapshot files and the clock (lines 226--257)\<close>

text \<open>
  \<open>get_beijing_time()\<close> is \<open>datetime.now(pytz.timezone("Asia/Shanghai"))\<close>: a datetime
  that carries a time zone (an aware one). \<open>datetime.strptime(ts_str, "%Y%m%d_%H%M%S")\<close>
  has no zone directive and returns a datetime without time zone (a naive one). A
  datetime is its wall-clock reading in seconds and, when aware, its offset from UTC.
\<close>

record py_datetime =
  wall :: int
  utcoffset :: "int option"

text \<open>The clock of the machine is a parameter: seconds of UTC.\<close>

definition get_beijing_time :: "int \<Rightarrow> py_datetime" where
  "get_beijing_time clock = \<lparr> wall = clock + 28800, utcoffset = Some 28800 \<rparr>"

text \<open>\<open>d - timedelta(hours=h)\<close> keeps the time zone of \<open>d\<close>.\<close>

definition minus_hours :: "py_datetime \<Rightarrow> int \<Rightarrow> py_datetime" where
  "minus_hours d h = d\<lparr> wall := wall d - 3600 * h \<rparr>"

text \<open>
  \<open>a < b\<close> on datetimes. Python orders two naive datetimes by wall clock and two aware
  ones by instant; an order comparison between a naive and an aware datetime raises
  \<open>TypeError\<close> (can't compare offset-naive and offset-aware datetimes).
\<close>

definition dt_less :: "py_datetime \<Rightarrow> py_datetime \<Rightarrow> py_error + bool" where
  "dt_less a b =
     (case (utcoffset a, utcoffset b) of
        (None, None) \<Rightarrow> Inr (wall a < wall b)
      | (Some oa, Some ob) \<Rightarrow> Inr (wall a - oa < wall b - ob)
      | _ \<Rightarrow> Inl TypeError)"

text \<open>
  A file that \<open>snapshot_dir.glob("snapshot_*.json")\<close> yields. Its name either is the
  \<open>strftime('%Y%m%d_%H%M%S')\<close> image of a wall-clock second, which \<open>strptime\<close> recovers, or
  is some other name matching the pattern, on which \<open>strptime\<close> raises \<open>ValueError\<close>.
  Its content either is not JSON, or is an object as the save step writes it, whose
  \<open>items\<close> may be absent.
\<close>

datatype fname = Stamped int | Foreign string

datatype file_body = InvalidJson | Body "news_item list option"

record snapshot_file =
  fname :: fname
  body :: file_body

fun strptime :: "fname \<Rightarrow> py_error + py_datetime" where
  "strptime (Stamped t) = Inr \<lparr> wall = t, utcoffset = None \<rparr>"
| "strptime (Foreign s) = Inl ValueError"

fun json_load :: "file_body \<Rightarrow> py_error + news_item list option" where
  "json_load InvalidJson = Inl JSONDecodeError"
| "json_load (Body items) = Inr items"

text \<open>
  What the file system does to the next save: nothing; \<open>mkdir\<close> raises \<open>OSError\<close>;
  \<open>open(..., "w")\<close> raises \<open>OSError\<close>; or \<open>open\<close> succeeds, so that the file exists and is
  empty, and \<open>json.dump\<close> or the closing of the file raises: \<open>OSError\<close> when the disk is
  full, \<open>UnicodeEncodeError\<close> when a string cannot be encoded. The file then keeps what
  was written before the exception.
\<close>

datatype save_fault = NoFault | MkdirFails | OpenFails | WriteFails py_error file_body

text \<open>The directory: the fault that awaits the save, and the files the glob yields, in
  the order it yields them.\<close>

record storage =
  save_fault :: save_fault
  files :: "snapshot_file list"

definition write_file :: "snapshot_file \<Rightarrow> snapshot_file list \<Rightarrow> snapshot_file list" where
  "write_file f fs =
     (if fname f \<in> fname ` set fs
      then map (\<lambda>g. if fname g = fname f then f else g) fs
      else fs @ [f])"

text \<open>
  The body of the first \<open>try\<close> (lines 227--240): the directory it leaves, and the
  exception it ends with, if any.
\<close>

definition save_snapshot ::
  "storage \<Rightarrow> py_datetime \<Rightarrow> news_item list \<Rightarrow> storage \<times> (py_error + unit)" where
  "save_snapshot st timestamp news_list =
     (case save_fault st of
        MkdirFails \<Rightarrow> (st, Inl OSError)
      | OpenFails \<Rightarrow> (st, Inl OSError)
      | WriteFails e left \<Rightarrow>
          (st\<lparr> files := write_file \<lparr> fname = Stamped (wall timestamp), body = left \<rparr>
                           (files st) \<rparr>,
           Inl e)
      | NoFault \<Rightarrow>
          (st\<lparr> files := write_file
                           \<lparr> fname = Stamped (wall timestamp), body = Body (Some news_list) \<rparr>
                           (files st) \<rparr>,
           Inr ()))"

section \<open>SpiderNode: folding the snapshot items (lines 262--285)\<close>

text \<open>
  \<open>aggregated\<close> is a dictionary; \<open>list(aggregated.values())\<close> lists it in insertion order.
  It is an association list: \<open>AList.update\<close> replaces the value of a present key in place
  and appends an absent key at the end, as assignment to a Python dictionary does.
\<close>

type_synonym agg_key = "string \<times> string"
type_synonym aggregated = "(agg_key \<times> news_item) list"

definition item_key :: "news_item \<Rightarrow> agg_key" where
  "item_key item =
     (str_or (source_id item) (str_or (source item) []), str_or (title item) [])"

definition better_rank :: "int option \<Rightarrow> int option \<Rightarrow> int option" where
  "better_rank rank_old rank_new =
     (case rank_new of
        None \<Rightarrow> rank_old
      | Some n \<Rightarrow> (case rank_old of
                     None \<Rightarrow> Some n
                   | Some old \<Rightarrow> if n < old then Some n else Some old))"

definition better_hot :: "real option \<Rightarrow> real option \<Rightarrow> real option" where
  "better_hot hot_old hot_new =
     (case hot_new of
        None \<Rightarrow> hot_old
      | Some n \<Rightarrow> (case hot_old of
                     None \<Rightarrow> Some n
                   | Some old \<Rightarrow> if n > old then Some n else Some old))"

definition keep_better :: "news_item \<Rightarrow> news_item \<Rightarrow> news_item" where
  "keep_better existing item =
     existing\<lparr> rank := better_rank (rank existing) (rank item),
               hot_value := better_hot (hot_value existing) (hot_value item) \<rparr>"

definition fold_item :: "aggregated \<Rightarrow> news_item \<Rightarrow> aggregated" where
  "fold_item aggregated item =
     (let key = item_key item
      in if snd key = [] then aggregated
         else (case map_of aggregated key of
                 None \<Rightarrow> AList.update key item aggregated
               | Some existing \<Rightarrow> AList.update key (keep_better existing item) aggregated))"

definition fold_items :: "aggregated \<Rightarrow> news_item list \<Rightarrow> aggregated" where
  "fold_items aggregated items = foldl fold_item aggregated items"

section \<open>SpiderNode: merging the snapshots of the last 24 hours (lines 244--291)\<close>

text \<open>
  The loop over the files. The inner \<open>try\<close> covers the parsing of the name only: its
  handler continues with the next file. The comparison \<open>dt < cutoff\<close>, \<open>json.load\<close> and
  the fold are outside it: an exception there leaves the loop.
\<close>

fun load_files :: "py_datetime \<Rightarrow> snapshot_file list \<Rightarrow> aggregated \<Rightarrow> py_error + aggregated" where
  "load_files cutoff [] aggregated = Inr aggregated"
| "load_files cutoff (p # ps) aggregated =
     (case strptime (fname p) of
        Inl e \<Rightarrow> load_files cutoff ps aggregated
      | Inr dt \<Rightarrow>
          (case dt_less dt cutoff of
             Inl e \<Rightarrow> Inl e
           | Inr True \<Rightarrow> load_files cutoff ps aggregated
           | Inr False \<Rightarrow>
               (case json_load (body p) of
                  Inl e \<Rightarrow> Inl e
                | Inr data_items \<Rightarrow>
                    load_files cutoff ps
                      (fold_items aggregated
                         (case data_items of None \<Rightarrow> [] | Some items \<Rightarrow> items)))))"

text \<open>
  The items the loop folds from one file when the comparison returns a truth value:
  those of a file whose name parses to a time not before the cutoff.
\<close>

definition read_items :: "py_datetime \<Rightarrow> snapshot_file \<Rightarrow> news_item list" where
  "read_items cutoff p =
     (case fname p of
        Foreign s \<Rightarrow> []
      | Stamped t \<Rightarrow>
          if t < wall cutoff then []
          else (case body p of Body (Some items) \<Rightarrow> items | _ \<Rightarrow> []))"

text \<open>What the node prints, as a log.\<close>

datatype log_msg = SaveFailed py_error | MergedCount nat | MergeFailed py_error

text \<open>Line 286: \<open>list(aggregated.values()) if aggregated else news_list\<close>.\<close>

definition select_merged :: "aggregated \<Rightarrow> news_item list \<Rightarrow> news_item list" where
  "select_merged aggregated news_list =
     (if aggregated \<noteq> [] then map snd aggregated else news_list)"

text \<open>The body of the second \<open>try\<close> (lines 251--287).\<close>

definition merge_body ::
  "py_datetime \<Rightarrow> snapshot_file list \<Rightarrow> news_item list \<Rightarrow> py_error + (news_item list \<times> log_msg list)" where
  "merge_body cutoff fs news_list =
     (case load_files cutoff fs [] of
        Inl e \<Rightarrow> Inl e
      | Inr aggregated \<Rightarrow>
          (let merged_list = select_merged aggregated news_list
           in Inr (merged_list, [MergedCount (length merged_list)])))"

text \<open>\<open>try: body except Exception as e: handler\<close>.\<close>

definition try_except :: "py_error + 'a \<Rightarrow> (py_error \<Rightarrow> py_error + 'a) \<Rightarrow> py_error + 'a" where
  "try_except body_result handler =
     (case body_result of Inl e \<Rightarrow> handler e | Inr v \<Rightarrow> Inr v)"

text \<open>The second \<open>try\<close> with its handler (lines 250--290), for a given cutoff.\<close>

definition try_merge ::
  "py_datetime \<Rightarrow> snapshot_file list \<Rightarrow> news_item list \<Rightarrow> py_error + (news_item list \<times> log_msg list)" where
  "try_merge cutoff fs news_list =
     try_except (merge_body cutoff fs news_list) (\<lambda>e. Inr (news_list, [MergeFailed e]))"

text \<open>Lines 244--291: the cutoff is computed from the clock.\<close>

definition merge_snapshots ::
  "int \<Rightarrow> snapshot_file list \<Rightarrow> news_item list \<Rightarrow> py_error + (news_item list \<times> log_msg list)" where
  "merge_snapshots clock fs news_list =
     (let now = get_beijing_time clock;
          lookback_hours = 24;
          cutoff = minus_hours now lookback_hours
      in try_merge cutoff fs news_list)"

text \<open>
  Lines 226--292 of \<open>SpiderNode.__call__\<close>: save the scrape, merge the directory, return
  \<open>merged_list\<close>. The clock is read once for the save and once for the merge.
\<close>

definition spider_tail ::
  "storage \<Rightarrow> int \<Rightarrow> int \<Rightarrow> news_item list \<Rightarrow> py_error + (storage \<times> log_msg list \<times> news_item list)" where
  "spider_tail st clock_save clock_merge news_list =
     (let (st1, saved) = save_snapshot st (get_beijing_time clock_save) news_list;
          log1 = (case saved of Inl e \<Rightarrow> [SaveFailed e] | Inr u \<Rightarrow> [])
      in case merge_snapshots clock_merge (files st1) news_list of
           Inl e \<Rightarrow> Inl e
         | Inr (merged_list, log2) \<Rightarrow> Inr (st1, log1 @ log2, merged_list))"

text \<open>The value the node returns, \<open>merged_list\<close>, read off the two results above.\<close>

definition merged_list_of :: "py_error + (news_item list \<times> log_msg list) \<Rightarrow> py_error + news_item list" where
  "merged_list_of r = (case r of Inl e \<Rightarrow> Inl e | Inr (merged_list, msgs) \<Rightarrow> Inr merged_list)"

definition returned ::
  "py_error + (storage \<times> log_msg list \<times> news_item list) \<Rightarrow> py_error + news_item list" where
  "returned r = (case r of Inl e \<Rightarrow> Inl e | Inr (st, msgs, merged_list) \<Rightarrow> Inr merged_list)"

section \<open>Example data\<close>

definition weibo_item :: "string option \<Rightarrow> int \<Rightarrow> real \<Rightarrow> news_item" where
  "weibo_item t r h =
     \<lparr> source_id = Some ''weibo'', source = Some ''Weibo'', source_name = Some ''Weibo'',
       title = t, rank = Some r, url = Some [], mobile_url = Some [], hot_value = Some h \<rparr>"

definition working_dir :: "snapshot_file list \<Rightarrow> storage" where
  "working_dir fs = \<lparr> save_fault = NoFault, files = fs \<rparr>"

definition snapshot :: "int \<Rightarrow> news_item list \<Rightarrow> snapshot_file" where
  "snapshot t items = \<lparr> fname = Stamped t, body = Body (Some items) \<rparr>"

section \<open>What the merge is meant to hold for one key\<close>

text \<open>
  The items of a sequence that carry a given key, and the best rank and heat among them:
  the least rank that is not null, the greatest \<open>hot_value\<close> that is not null, null when
  there is none.
\<close>

definition occurrences :: "agg_key \<Rightarrow> news_item list \<Rightarrow> news_item list" where
  "occurrences k xs = filter (\<lambda>x. item_key x = k) xs"

definition best_rank :: "news_item list \<Rightarrow> int option" where
  "best_rank occ =
     (if Option.these (rank ` set occ) = {} then None
      else Some (Min (Option.these (rank ` set occ))))"

definition best_hot :: "news_item list \<Rightarrow> real option" where
  "best_hot occ =
     (if Option.these (hot_value ` set occ) = {} then None
      else Some (Max (Option.these (hot_value ` set occ))))"

text \<open>One step of the fold as seen from one key: the first item is stored, later ones are absorbed.\<close>

definition absorb :: "news_item option \<Rightarrow> news_item \<Rightarrow> news_item option" where
  "absorb acc x = Some (case acc of None \<Rightarrow> x | Some e \<Rightarrow> keep_better e x)"

section \<open>render\_langgraph\_html\_report: topics by category (lines 425--464)\<close>

text \<open>
  The eleven category names of \<open>category_order\<close> are Chinese strings; they are given by
  their UTF-8 bytes, in the order of the source.
\<close>

text \<open>Code points U+7ECF U+6D4E U+7C7B U+8206 U+8BBA.\<close>

definition cat_economic :: string where
  "cat_economic =
     [CHR 0xE7, CHR 0xBB, CHR 0x8F, CHR 0xE6, CHR 0xB5, CHR 0x8E,
      CHR 0xE7, CHR 0xB1, CHR 0xBB, CHR 0xE8, CHR 0x88, CHR 0x86,
      CHR 0xE8, CHR 0xAE, CHR 0xBA]"

text \<open>Code points U+7A81 U+53D1 U+4E8B U+4EF6 U+8206 U+8BBA.\<close>

definition cat_emergency :: string where
  "cat_emergency =
     [CHR 0xE7, CHR 0xAA, CHR 0x81, CHR 0xE5, CHR 0x8F, CHR 0x91,
      CHR 0xE4, CHR 0xBA, CHR 0x8B, CHR 0xE4, CHR 0xBB, CHR 0xB6,
      CHR 0xE8, CHR 0x88, CHR 0x86, CHR 0xE8, CHR 0xAE, CHR 0xBA]"

text \<open>Code points U+6CD5 U+6CBB U+7C7B U+8206 U+8BBA.\<close>

definition cat_legal :: string where
  "cat_legal =
     [CHR 0xE6, CHR 0xB3, CHR 0x95, CHR 0xE6, CHR 0xB2, CHR 0xBB,
      CHR 0xE7, CHR 0xB1, CHR 0xBB, CHR 0xE8, CHR 0x88, CHR 0x86,
      CHR 0xE8, CHR 0xAE, CHR 0xBA]"

text \<open>Code points U+6587 U+5A31 U+7C7B U+8206 U+8BBA.\<close>

definition cat_culture :: string where
  "cat_culture =
     [CHR 0xE6, CHR 0x96, CHR 0x87, CHR 0xE5, CHR 0xA8, CHR 0xB1,
      CHR 0xE7, CHR 0xB1, CHR 0xBB, CHR 0xE8, CHR 0x88, CHR 0x86,
      CHR 0xE8, CHR 0xAE, CHR 0xBA]"

text \<open>Code points U+79D1 U+6559 U+7C7B U+8206 U+8BBA.\<close>

definition cat_science :: string where
  "cat_science =
     [CHR 0xE7, CHR 0xA7, CHR 0x91, CHR 0xE6, CHR 0x95, CHR 0x99,
      CHR 0xE7, CHR 0xB1, CHR 0xBB, CHR 0xE8, CHR 0x88, CHR 0x86,
      CHR 0xE8, CHR 0xAE, CHR 0xBA]"

text \<open>Code points U+56FD U+9645 U+5173 U+7CFB U+7C7B U+8206 U+8BBA.\<close>

definition cat_international :: string where
  "cat_international =
     [CHR 0xE5, CHR 0x9B, CHR 0xBD, CHR 0xE9, CHR 0x99, CHR 0x85,
      CHR 0xE5, CHR 0x85, CHR 0xB3, CHR 0xE7, CHR 0xB3, CHR 0xBB,
      CHR 0xE7, CHR 0xB1, CHR 0xBB, CHR 0xE8, CHR 0x88, CHR 0x86,
      CHR 0xE8, CHR 0xAE, CHR 0xBA]"

text \<open>Code points U+5065 U+5EB7 U+7C7B U+8206 U+8BBA.\<close>

definition cat_health :: string where
  "cat_health =
     [CHR 0xE5, CHR 0x81, CHR 0xA5, CHR 0xE5, CHR 0xBA, CHR 0xB7,
      CHR 0xE7, CHR 0xB1, CHR 0xBB, CHR 0xE8, CHR 0x88, CHR 0x86,
      CHR 0xE8, CHR 0xAE, CHR 0xBA]"

text \<open>Code points U+6CBB U+7406 U+7C7B U+8206 U+8BBA.\<close>

definition cat_governance :: string where
  "cat_governance =
     [CHR 0xE6, CHR 0xB2, CHR 0xBB, CHR 0xE7, CHR 0x90, CHR 0x86,
      CHR 0xE7, CHR 0xB1, CHR 0xBB, CHR 0xE8, CHR 0x88, CHR 0x86,
      CHR 0xE8, CHR 0xAE, CHR 0xBA]"

text \<open>Code points U+6C11 U+751F U+7C7B U+8206 U+8BBA.\<close>

definition cat_livelihood :: string where
  "cat_livelihood =
     [CHR 0xE6, CHR 0xB0, CHR 0x91, CHR 0xE7, CHR 0x94, CHR 0x9F,
      CHR 0xE7, CHR 0xB1, CHR 0xBB, CHR 0xE8, CHR 0x88, CHR 0x86,
      CHR 0xE8, CHR 0xAE, CHR 0xBA]"

text \<open>Code points U+751F U+6001 U+73AF U+5883 U+7C7B U+8206 U+8BBA.\<close>

definition cat_environment :: string where
  "cat_environment =
     [CHR 0xE7, CHR 0x94, CHR 0x9F, CHR 0xE6, CHR 0x80, CHR 0x81,
      CHR 0xE7, CHR 0x8E, CHR 0xAF, CHR 0xE5, CHR 0xA2, CHR 0x83,
      CHR 0xE7, CHR 0xB1, CHR 0xBB, CHR 0xE8, CHR 0x88, CHR 0x86,
      CHR 0xE8, CHR 0xAE, CHR 0xBA]"

text \<open>Code points U+5176 U+4ED6.\<close>

definition cat_other :: string where
  "cat_other =
     [CHR 0xE5, CHR 0x85, CHR 0xB6, CHR 0xE4, CHR 0xBB, CHR 0x96]"

definition category_order :: "string list" where
  "category_order =
     [cat_economic,
      cat_emergency,
      cat_legal,
      cat_culture,
      cat_science,
      cat_international,
      cat_health,
      cat_governance,
      cat_livelihood,
      cat_environment,
      cat_other]"

subsection \<open>Python floats\<close>

text \<open>
  A Python float is a finite double, an infinity, or NaN. The floats that are not NaN are
  points of the extended real line (a finite double is the real number it denotes), and
  Python orders them as the line does; every order comparison with NaN is false.
\<close>

datatype xreal = MInf | Real real | PInf

fun xpos :: "xreal \<Rightarrow> int \<times> real" where
  "xpos MInf = (- 1, 0)"
| "xpos (Real r) = (0, r)"
| "xpos PInf = (1, 0)"

instantiation xreal :: linorder
begin

definition less_eq_xreal :: "xreal \<Rightarrow> xreal \<Rightarrow> bool" where
  "less_eq_xreal a b \<longleftrightarrow> xpos a \<le> xpos b"

definition less_xreal :: "xreal \<Rightarrow> xreal \<Rightarrow> bool" where
  "less_xreal a b \<longleftrightarrow> xpos a < xpos b"

instance
proof
  fix a b c :: xreal
  show "(a < b) = (a \<le> b \<and> \<not> b \<le> a)"
    unfolding less_eq_xreal_def less_xreal_def by auto
  show "a \<le> a" unfolding less_eq_xreal_def by simp
  show "a \<le> b \<Longrightarrow> b \<le> c \<Longrightarrow> a \<le> c"
    unfolding less_eq_xreal_def by (rule order_trans)
  show "a \<le> b \<Longrightarrow> b \<le> a \<Longrightarrow> a = b"
    unfolding less_eq_xreal_def by (cases a; cases b) auto
  show "a \<le> b \<or> b \<le> a"
    unfolding less_eq_xreal_def by (rule linear)
qed

end

datatype pyfloat = Num xreal | NaN

text \<open>Unary minus on a float that is not NaN.\<close>

fun xneg :: "xreal \<Rightarrow> xreal" where
  "xneg MInf = PInf"
| "xneg (Real r) = Real (- r)"
| "xneg PInf = MInf"

text \<open>
  \<open>float(i)\<close> for an integer \<open>i\<close>: the nearest double, ties to the even one; integers
  below \<open>2 ^ 53\<close> in size are doubles themselves. \<open>OverflowError\<close> when the nearest double
  would be \<open>2 ^ 1024\<close> in size or more.
\<close>

definition round_to_double :: "int \<Rightarrow> int" where
  "round_to_double i =
     (let a = \<bar>i\<bar>
      in if a < 2 ^ 53 then i
         else (let e = nat (bitlen a - 53);
                   q = a div 2 ^ e;
                   r = a mod 2 ^ e;
                   half = 2 ^ (e - 1);
                   q' = (if half < r then q + 1 else if r = half then q + q mod 2 else q)
               in sgn i * (q' * 2 ^ e)))"

definition float_of_integer :: "int \<Rightarrow> py_error + pyfloat" where
  "float_of_integer i =
     (let d = round_to_double i
      in if 2 ^ 1024 \<le> \<bar>d\<bar> then Inl OverflowError else Inr (Num (Real (of_int d))))"

subsection \<open>Topics and their heat\<close>

text \<open>
  \<open>heat_score\<close> as \<open>json.loads\<close> yields it from the answer of the language model: absent
  or null; an integer (a boolean is the integer 1 or 0, as in Python); a float, which
  \<open>json.loads\<close> lets be an infinity or NaN; a string, with what \<open>float\<close> makes of it (\<open>None\<close>
  when \<open>float\<close> raises \<open>ValueError\<close>; the empty string is falsy and gives the same 0.0); or
  a list or object (\<open>float\<close> raises \<open>TypeError\<close>; an empty one is falsy and gives the same
  0.0).
\<close>

datatype heat_val =
  HeatNone | HeatInt int | HeatFloat pyfloat | HeatStr "pyfloat option" | HeatOther

record topic_item =
  topic :: "string option"
  sentiment :: "string option"
  comment :: "string option"
  heat_score :: heat_val
  category :: "string option"

text \<open>
  \<open>float(tt.get("heat_score") or 0)\<close>. The falsy numbers 0 and 0.0 are replaced by 0, of
  which \<open>float\<close> makes the same 0.0.
\<close>

fun float_of :: "heat_val \<Rightarrow> py_error + pyfloat" where
  "float_of HeatNone = Inr (Num (Real 0))"
| "float_of (HeatInt i) = float_of_integer i"
| "float_of (HeatFloat f) = Inr f"
| "float_of (HeatStr None) = Inl ValueError"
| "float_of (HeatStr (Some f)) = Inr f"
| "float_of HeatOther = Inl TypeError"

text \<open>
  The \<open>try\<close> of lines 453--456: \<open>h\<close> is \<open>0.0\<close> when \<open>float\<close> raises \<open>TypeError\<close> or
  \<open>ValueError\<close>; any other exception leaves \<open>_category_heat\<close>.
\<close>

definition topic_heat :: "topic_item \<Rightarrow> py_error + pyfloat" where
  "topic_heat tt =
     (case float_of (heat_score tt) of
        Inr h \<Rightarrow> Inr h
      | Inl TypeError \<Rightarrow> Inr (Num (Real 0))
      | Inl ValueError \<Rightarrow> Inr (Num (Real 0))
      | Inl e \<Rightarrow> Inl e)"

text \<open>
  \<open>xs.index(x)\<close>, the position of the first occurrence. The source applies it to members of
  \<open>xs\<close> only, where it does not raise.
\<close>

definition index_of :: "'a list \<Rightarrow> 'a \<Rightarrow> nat" where
  "index_of xs x = length (takeWhile (\<lambda>y. y \<noteq> x) xs)"

type_synonym buckets = "(string \<times> topic_item list) list"

text \<open>Lines 443--445: the category a topic is filed under.\<close>

definition coerce_category :: "buckets \<Rightarrow> topic_item \<Rightarrow> string" where
  "coerce_category topics_by_category t =
     (let cat = str_or (category t) cat_other
      in if cat \<notin> fst ` set topics_by_category then cat_other else cat)"

definition place_topic :: "buckets \<Rightarrow> topic_item \<Rightarrow> buckets" where
  "place_topic topics_by_category t =
     AList.map_entry (coerce_category topics_by_category t) (\<lambda>bucket. bucket @ [t])
       topics_by_category"

definition topics_by_category :: "topic_item list \<Rightarrow> buckets" where
  "topics_by_category top_topics =
     foldl place_topic (map (\<lambda>c. (c, [])) category_order) top_topics"

text \<open>
  The category a topic is filed under when the dictionary has its eleven keys, as it has
  from line 441 on.
\<close>

definition filed_under :: "topic_item \<Rightarrow> string" where
  "filed_under t = coerce_category (topics_by_category []) t"

text \<open>\<open>topics_by_category.get(cat) or []\<close>.\<close>

definition bucket_of :: "buckets \<Rightarrow> string \<Rightarrow> topic_item list" where
  "bucket_of tbc cat = (case map_of tbc cat of None \<Rightarrow> [] | Some b \<Rightarrow> b)"

text \<open>
  Lines 451--459, the loop of \<open>_category_heat\<close> with \<open>max_heat\<close> as it stands: it starts at
  0.0 and only ever takes the value of an \<open>h\<close> with \<open>h > max_heat\<close>, so it is never NaN; for
  a NaN \<open>h\<close> the comparison is false.
\<close>

fun running_max :: "xreal \<Rightarrow> topic_item list \<Rightarrow> py_error + xreal" where
  "running_max max_heat [] = Inr max_heat"
| "running_max max_heat (tt # topics) =
     (case topic_heat tt of
        Inl e \<Rightarrow> Inl e
      | Inr NaN \<Rightarrow> running_max max_heat topics
      | Inr (Num h) \<Rightarrow> running_max (if h > max_heat then h else max_heat) topics)"

definition category_heat :: "buckets \<Rightarrow> string \<Rightarrow> py_error + xreal" where
  "category_heat tbc cat = running_max (Real 0) (bucket_of tbc cat)"

text \<open>
  \<open>list.sort(key=...)\<close> computes the key of every element, in the order of the list, and
  an exception in a key function leaves the sort; then it sorts by the keys, stably.
\<close>

fun decorate :: "('a \<Rightarrow> py_error + 'k) \<Rightarrow> 'a list \<Rightarrow> py_error + ('k \<times> 'a) list" where
  "decorate key [] = Inr []"
| "decorate key (x # xs) =
     (case key x of
        Inl e \<Rightarrow> Inl e
      | Inr k \<Rightarrow> (case decorate key xs of
                     Inl e \<Rightarrow> Inl e
                   | Inr ks \<Rightarrow> Inr ((k, x) # ks)))"

definition sort_by_key :: "('a \<Rightarrow> py_error + 'k::linorder) \<Rightarrow> 'a list \<Rightarrow> py_error + 'a list" where
  "sort_by_key key xs =
     (case decorate key xs of
        Inl e \<Rightarrow> Inl e
      | Inr ks \<Rightarrow> Inr (map snd (sort_key fst ks)))"

text \<open>
  Lines 461--464. The key is the tuple \<open>(-_category_heat(c), category_order.index(c))\<close>; a
  Python tuple is compared lexicographically, as pairs are here.
\<close>

definition display_key :: "buckets \<Rightarrow> string \<Rightarrow> py_error + (xreal \<times> nat)" where
  "display_key tbc c =
     (case category_heat tbc c of
        Inl e \<Rightarrow> Inl e
      | Inr max_heat \<Rightarrow> Inr (xneg max_heat, index_of category_order c))"

definition category_display_order :: "buckets \<Rightarrow> py_error + string list" where
  "category_display_order tbc =
     sort_by_key (display_key tbc) (filter (\<lambda>c. bucket_of tbc c \<noteq> []) category_order)"

text \<open>
  What a topic's heat score counts for: the float made of it; 0 when the score is
  missing or unparsable, and when it is NaN.
\<close>

definition counted_heat :: "topic_item \<Rightarrow> xreal" where
  "counted_heat tt = (case topic_heat tt of Inr (Num h) \<Rightarrow> h | _ \<Rightarrow> Real 0)"

text \<open>
  The representative heat of a category: the greatest of 0 and the heat scores of its
  bucket.
\<close>

definition representative_heat :: "buckets \<Rightarrow> string \<Rightarrow> xreal" where
  "representative_heat tbc cat =
     Max (insert (Real 0) (counted_heat ` set (bucket_of tbc cat)))"

section \<open>render\_langgraph\_html\_report: the rows of the raw table (lines 468--492, 617--630)\<close>

definition platform_order :: "string list" where
  "platform_order =
     [''weibo'', ''baidu-hot'', ''douyin'', ''zhihu'', ''toutiao'',
      ''tieba'', ''thepaper'', ''cls'', ''ifeng'', ''wallstreetcn'']"

text \<open>\<open>{pid: idx for idx, pid in enumerate(platform_order)}\<close>.\<close>

definition platform_index :: "(string \<times> nat) list" where
  "platform_index = map (\<lambda>(idx, pid). (pid, idx)) (List.enumerate 0 platform_order)"

definition row_source_id :: "news_item \<Rightarrow> string" where
  "row_source_id n = str_or (source_id n) (str_or (source n) ''other'')"

definition platform_sort_key :: "news_item \<Rightarrow> nat" where
  "platform_sort_key item =
     (case map_of platform_index (row_source_id item) of
        Some idx \<Rightarrow> idx
      | None \<Rightarrow> length platform_index)"

type_synonym platforms = "(string \<times> string \<times> news_item list) list"

text \<open>Lines 484--492: group the news by source, in the order the sources first appear.\<close>

definition add_platform :: "platforms \<Rightarrow> news_item \<Rightarrow> platforms" where
  "add_platform platforms n =
     (let sid = row_source_id n;
          sname = str_or (source_name n) (str_or (source n) sid)
      in if sid \<notin> fst ` set platforms
         then platforms @ [(sid, sname, [n])]
         else AList.map_entry sid (\<lambda>(name, items). (name, items @ [n])) platforms)"

definition group_platforms :: "news_item list \<Rightarrow> platforms" where
  "group_platforms news_list = foldl add_platform [] news_list"

text \<open>Lines 621--628: one row per item, with the id and the display name of its group.\<close>

definition rows_of :: "platforms \<Rightarrow> news_item list" where
  "rows_of platforms =
     concat (map (\<lambda>(sid, name, items).
                    map (\<lambda>n. n\<lparr> source_id := Some sid, source_name := Some name \<rparr>) items)
               platforms)"

text \<open>\<open>n.get("rank") or 9999\<close>: a null rank and the rank 0 are falsy.\<close>

definition rank_or_9999 :: "news_item \<Rightarrow> int" where
  "rank_or_9999 n = (case rank n of None \<Rightarrow> 9999 | Some r \<Rightarrow> if r = 0 then 9999 else r)"

definition row_key :: "news_item \<Rightarrow> nat \<times> int" where
  "row_key n = (platform_sort_key n, rank_or_9999 n)"

definition order_raw_rows :: "news_item list \<Rightarrow> news_item list" where
  "order_raw_rows news_list = sort_key row_key (rows_of (group_platforms news_list))"

text \<open>
  What a row shows of the item it was copied from: everything but the two fields that
  lines 626--627 overwrite, with the source id the item is grouped under.
\<close>

definition row_view ::
  "news_item \<Rightarrow> string \<times> string option \<times> string option \<times> int option \<times> string option \<times> string option \<times> real option" where
  "row_view n = (row_source_id n, source n, title n, rank n, url n, mobile_url n, hot_value n)"

text \<open>
  The invariant of the grouping: each source id is the key of one group, is not empty, and
  is the source id of every item of its group.
\<close>

definition well_grouped :: "platforms \<Rightarrow> bool" where
  "well_grouped P \<longleftrightarrow>
     distinct (map fst P) \<and>
     (\<forall>(sid, name, items) \<in> set P. sid \<noteq> [] \<and> (\<forall>n \<in> set items. row_source_id n = sid))"

text \<open>The items grouped under a source id.\<close>

definition group_items :: "platforms \<Rightarrow> string \<Rightarrow> news_item list" where
  "group_items P s = (case map_of P s of None \<Rightarrow> [] | Some (name, items) \<Rightarrow> items)"

section \<open>Example topics and rows\<close>

definition example_topic :: "string option \<Rightarrow> heat_val \<Rightarrow> topic_item" where
  "example_topic c h =
     \<lparr> topic = Some ''T'', sentiment = None, comment = None, heat_score = h, category = c \<rparr>"

definition platform_item :: "string \<Rightarrow> int option \<Rightarrow> news_item" where
  "platform_item sid r =
     \<lparr> source_id = Some sid, source = Some sid, source_name = Some sid,
       title = Some ''T'', rank = r, url = Some [], mobile_url = Some [], hot_value = Some 0 \<rparr>"

section \<open>Properties of the scraper\<close>

lemma length_scrape_items: "length (scrape_items sid sname items) = min (length items) 30"
  by (simp add: scrape_items_def Let_def)

lemma nth_scrape_items:
  assumes "i < length (scrape_items sid sname items)"
  shows "scrape_items sid sname items ! i = make_news sid sname (Suc i, items ! i)"
  using assms by (simp add: scrape_items_def Let_def nth_enumerate_eq)

text \<open>
  Claim C10. A platform contributes at most its first 30 fetched items; the item kept at
  position \<open>i\<close> (counted from 0) is built from the \<open>i\<close>-th fetched item and has rank
  \<open>i + 1\<close>, whatever the item holds; so every rank of the scraper lies between 1 and 30.
\<close>

theorem scrape_platform_ranks:
  "length (scrape_platform (sid, sname) (Items items)) \<le> 30 \<and>
   length (scrape_platform (sid, sname) (Items items)) = min (length items) 30 \<and>
   (\<forall>i < length (scrape_platform (sid, sname) (Items items)).
      rank (scrape_platform (sid, sname) (Items items) ! i) = Some (int i + 1) \<and>
      title (scrape_platform (sid, sname) (Items items) ! i) = api_title (items ! i)) \<and>
   (\<forall>n \<in> set (scrape_platform (sid, sname) resp).
      \<exists>r. rank n = Some r \<and> 1 \<le> r \<and> r \<le> 30)"
proof -
  let ?out = "scrape_items sid sname items"
  have len: "length ?out = min (length items) 30"
    by (rule length_scrape_items)
  have pos: "\<forall>i < length ?out. rank (?out ! i) = Some (int i + 1) \<and>
      title (?out ! i) = api_title (items ! i)"
    by (simp add: nth_scrape_items make_news_def)
  have rng: "\<exists>r. rank n = Some r \<and> 1 \<le> r \<and> r \<le> 30"
    if "n \<in> set (scrape_platform (sid, sname) resp)" for n
  proof (cases resp)
    case (Items its)
    with that obtain i where i: "i < length (scrape_items sid sname its)"
      and n: "n = scrape_items sid sname its ! i"
      by (auto simp: in_set_conv_nth)
    from i have "i < 30" by (simp add: length_scrape_items)
    with i n show ?thesis by (simp add: nth_scrape_items make_news_def)
  qed (use that in auto)
  from len pos rng show ?thesis by auto
qed

theorem scrape_platform_ranks_witness:
  "(0::nat) < length (scrape_platform (''weibo'', ''Weibo'')
      (Items [\<lparr>api_title = Some ''X'', api_url = Absent, api_mobileUrl = Null, api_hotValue = Val 5\<rparr>])) \<and>
   rank (scrape_platform (''weibo'', ''Weibo'')
      (Items [\<lparr>api_title = Some ''X'', api_url = Absent, api_mobileUrl = Null, api_hotValue = Val 5\<rparr>]) ! 0)
     = Some 1"
  using scrape_platform_ranks [of "''weibo''" "''Weibo''"
      "[\<lparr>api_title = Some ''X'', api_url = Absent, api_mobileUrl = Null, api_hotValue = Val 5\<rparr>]"
      "NoData"]
  by (simp add: scrape_items_def)

section \<open>Properties of the snapshot merge\<close>


text \<open>
  With an aware cutoff the comparison raises on the first file whose name parses: the
  loop either meets no such file and leaves \<open>aggregated\<close> as it was, or ends with
  \<open>TypeError\<close>.
\<close>

lemma dt_less_naive_aware:
  "utcoffset a = None \<Longrightarrow> utcoffset b = Some ob \<Longrightarrow> dt_less a b = Inl TypeError"
  by (simp add: dt_less_def)

lemma load_files_aware:
  assumes "utcoffset cutoff = Some ob"
  shows "load_files cutoff fs agg =
     (if \<exists>p \<in> set fs. \<exists>t. fname p = Stamped t then Inl TypeError else Inr agg)"
proof (induction fs)
  case Nil
  show ?case by simp
next
  case (Cons p ps)
  show ?case
  proof (cases "fname p")
    case (Stamped t)
    then show ?thesis using assms by (simp add: dt_less_def)
  next
    case (Foreign s)
    then show ?thesis using Cons.IH by simp
  qed
qed

text \<open>
  The loop as written folds the files of the window when the cutoff has no time zone, as
  the naive \<open>dt\<close> requires. The node never calls it so: its cutoff comes from
  \<open>get_beijing_time\<close> and is aware.
\<close>

lemma fold_items_append:
  "fold_items agg (xs @ ys) = fold_items (fold_items agg xs) ys"
  by (simp add: fold_items_def)

lemma load_files_naive_cutoff:
  assumes "utcoffset cutoff = None"
    and "\<forall>p \<in> set fs. \<forall>t. fname p = Stamped t \<and> \<not> t < wall cutoff \<longrightarrow> body p \<noteq> InvalidJson"
  shows "load_files cutoff fs agg = Inr (fold_items agg (concat (map (read_items cutoff) fs)))"
  using assms(2)
proof (induction fs arbitrary: agg)
  case Nil
  show ?case by (simp add: fold_items_def)
next
  case (Cons p ps)
  then have IH: "load_files cutoff ps a = Inr (fold_items a (concat (map (read_items cutoff) ps)))"
    for a by simp
  show ?case
  proof (cases "fname p")
    case (Foreign s)
    then have "read_items cutoff p = []" by (simp add: read_items_def)
    with Foreign show ?thesis by (simp add: IH)
  next
    case (Stamped t)
    show ?thesis
    proof (cases "t < wall cutoff")
      case True
      with Stamped have "read_items cutoff p = []" by (simp add: read_items_def)
      with True Stamped assms(1) show ?thesis by (simp add: IH dt_less_def)
    next
      case False
      with Stamped Cons.prems obtain items where b: "body p = Body items"
        by (cases "body p") auto
      with Stamped False have r: "read_items cutoff p = (case items of None \<Rightarrow> [] | Some xs \<Rightarrow> xs)"
        by (simp add: read_items_def split: option.splits)
      from Stamped False assms(1) b show ?thesis
        by (simp add: IH r dt_less_def fold_items_append)
    qed
  qed
qed

lemma utcoffset_cutoff:
  "utcoffset (minus_hours (get_beijing_time clock) h) = Some 28800"
  by (simp add: minus_hours_def get_beijing_time_def)

lemma merge_snapshots_news:
  "\<exists>msgs. merge_snapshots clock fs news_list = Inr (news_list, msgs)"
  by (simp add: merge_snapshots_def try_merge_def Let_def try_except_def merge_body_def
      load_files_aware [OF utcoffset_cutoff] select_merged_def)

lemma spider_tail_total:
  "\<exists>st' msgs. spider_tail st c1 c2 news_list = Inr (st', msgs, news_list)"
proof -
  obtain st1 saved where s: "save_snapshot st (get_beijing_time c1) news_list = (st1, saved)"
    by (cases "save_snapshot st (get_beijing_time c1) news_list")
  obtain log2 where m: "merge_snapshots c2 (files st1) news_list = Inr (news_list, log2)"
    using merge_snapshots_news by blast
  show ?thesis by (simp add: spider_tail_def s m)
qed

lemma map_of_fold_item:
  "map_of (fold_item agg x) k =
     (if item_key x = k \<and> snd k \<noteq> [] then absorb (map_of agg k) x else map_of agg k)"
  by (auto simp: fold_item_def Let_def absorb_def AList.update_conv' split: option.splits)

lemma map_of_fold_items:
  "map_of (fold_items agg xs) k =
     (if snd k = [] then map_of agg k
      else foldl absorb (map_of agg k) (filter (\<lambda>x. item_key x = k) xs))"
  unfolding fold_items_def
  by (induction xs arbitrary: agg) (auto simp: map_of_fold_item)

lemma distinct_fold_item:
  "distinct (map fst agg) \<Longrightarrow> distinct (map fst (fold_item agg x))"
  by (auto simp: fold_item_def Let_def AList.distinct_update split: option.splits)

lemma distinct_fold_items:
  "distinct (map fst agg) \<Longrightarrow> distinct (map fst (fold_items agg xs))"
  unfolding fold_items_def
  by (induction xs arbitrary: agg) (auto simp: distinct_fold_item)

lemma keys_fold_item:
  "fst ` set (fold_item agg x) =
     fst ` set agg \<union> (if snd (item_key x) = [] then {} else {item_key x})"
  by (auto simp: fold_item_def Let_def AList.dom_update split: option.splits)

lemma keys_fold_items:
  "fst ` set (fold_items agg xs) =
     fst ` set agg \<union> {item_key x |x. x \<in> set xs \<and> snd (item_key x) \<noteq> []}"
  unfolding fold_items_def
proof (induction xs arbitrary: agg)
  case Nil
  show ?case by simp
next
  case (Cons x xs)
  show ?case by (simp add: Cons.IH keys_fold_item) blast
qed

lemma foldl_absorb_Some:
  "foldl absorb (Some e) ys = Some (foldl keep_better e ys)"
  by (induction ys arbitrary: e) (auto simp: absorb_def)

lemma foldl_absorb_None:
  "foldl absorb None ys = (case ys of [] \<Rightarrow> None | f # rest \<Rightarrow> Some (foldl keep_better f rest))"
  by (cases ys) (auto simp: absorb_def foldl_absorb_Some)

lemma finite_these_set: "finite (Option.these (set rs))"
  by (simp add: Option.these_def)

lemma foldl_better_rank:
  "foldl better_rank r rs =
     (if Option.these (set (r # rs)) = {} then None
      else Some (Min (Option.these (set (r # rs)))))"
proof (induction rs rule: rev_induct)
  case Nil
  show ?case by (cases r) (simp_all add: Option.these_def)
next
  case (snoc a rs)
  let ?S = "Option.these (set (r # rs))"
  have fin: "finite ?S" by (rule finite_these_set)
  show ?case
  proof (cases a)
    case None
    then have "Option.these (set (r # rs @ [a])) = ?S"
      by (auto simp: in_these_eq)
    with None snoc.IH show ?thesis by (simp add: better_rank_def)
  next
    case (Some y)
    then have eq: "Option.these (set (r # rs @ [a])) = insert y ?S"
      by (auto simp: in_these_eq)
    show ?thesis
    proof (cases "?S = {}")
      case True
      with Some snoc.IH eq show ?thesis by (simp add: better_rank_def)
    next
      case False
      with fin have "Min (insert y ?S) = min y (Min ?S)" by (rule Min_insert)
      with Some snoc.IH eq False show ?thesis
        by (simp add: better_rank_def min_def)
    qed
  qed
qed

lemma foldl_better_hot:
  "foldl better_hot r rs =
     (if Option.these (set (r # rs)) = {} then None
      else Some (Max (Option.these (set (r # rs)))))"
proof (induction rs rule: rev_induct)
  case Nil
  show ?case by (cases r) (simp_all add: Option.these_def)
next
  case (snoc a rs)
  let ?S = "Option.these (set (r # rs))"
  have fin: "finite ?S" by (rule finite_these_set)
  show ?case
  proof (cases a)
    case None
    then have "Option.these (set (r # rs @ [a])) = ?S"
      by (auto simp: in_these_eq)
    with None snoc.IH show ?thesis by (simp add: better_hot_def)
  next
    case (Some y)
    then have eq: "Option.these (set (r # rs @ [a])) = insert y ?S"
      by (auto simp: in_these_eq)
    show ?thesis
    proof (cases "?S = {}")
      case True
      with Some snoc.IH eq show ?thesis by (simp add: better_hot_def)
    next
      case False
      with fin have "Max (insert y ?S) = max y (Max ?S)" by (rule Max_insert)
      with Some snoc.IH eq False show ?thesis
        by (simp add: better_hot_def max_def)
    qed
  qed
qed

lemma foldl_keep_better:
  "foldl keep_better e ys =
     e\<lparr> rank := foldl better_rank (rank e) (map rank ys),
        hot_value := foldl better_hot (hot_value e) (map hot_value ys) \<rparr>"
  by (induction ys arbitrary: e) (simp_all add: keep_better_def)

lemma foldl_keep_better_best:
  "foldl keep_better f rest =
     f\<lparr> rank := best_rank (f # rest), hot_value := best_hot (f # rest) \<rparr>"
  by (simp add: foldl_keep_better foldl_better_rank foldl_better_hot best_rank_def best_hot_def)

lemma map_of_fold_items_empty:
  assumes "map_of (fold_items [] xs) k = Some r"
  shows "snd k \<noteq> [] \<and> occurrences k xs \<noteq> [] \<and>
         r = (hd (occurrences k xs))\<lparr> rank := best_rank (occurrences k xs),
                                       hot_value := best_hot (occurrences k xs) \<rparr>"
proof -
  from assms have nk: "snd k \<noteq> []" by (auto simp: map_of_fold_items split: if_splits)
  with assms have "foldl absorb None (occurrences k xs) = Some r"
    by (simp add: map_of_fold_items occurrences_def)
  then obtain f rest where occ: "occurrences k xs = f # rest"
    and r: "r = foldl keep_better f rest"
    by (auto simp: foldl_absorb_None split: list.splits)
  from nk occ r show ?thesis by (simp add: foldl_keep_better_best)
qed

lemma hd_occurrences_key:
  "occurrences k xs \<noteq> [] \<Longrightarrow> item_key (hd (occurrences k xs)) = k"
proof -
  assume "occurrences k xs \<noteq> []"
  then have "hd (occurrences k xs) \<in> set (occurrences k xs)" by simp
  then show ?thesis by (simp add: occurrences_def)
qed

lemma fold_items_nonempty:
  "fold_items [] xs \<noteq> [] \<longleftrightarrow> (\<exists>x \<in> set xs. snd (item_key x) \<noteq> [])"
proof -
  have "fold_items [] xs \<noteq> [] \<longleftrightarrow> fst ` set (fold_items [] xs) \<noteq> {}" by simp
  also have "\<dots> \<longleftrightarrow> {item_key x |x. x \<in> set xs \<and> snd (item_key x) \<noteq> []} \<noteq> {}"
    by (simp add: keys_fold_items)
  also have "\<dots> \<longleftrightarrow> (\<exists>x \<in> set xs. snd (item_key x) \<noteq> [])"
    by blast
  finally show ?thesis .
qed

text \<open>
  The merge block returns the current scrape for every directory: an empty fold selects
  it at line 286, and the handler of line 288 selects it after \<open>TypeError\<close>.
\<close>

lemma merged_list_of_news:
  "merged_list_of (merge_snapshots clock fs news_list) = Inr news_list"
proof -
  obtain msgs where "merge_snapshots clock fs news_list = Inr (news_list, msgs)"
    using merge_snapshots_news by blast
  then show ?thesis by (simp add: merged_list_of_def)
qed

text \<open>
  Claim C1, as amended. The fold of lines 262--285, run over any sequence of items, holds
  exactly one record for each key (source\_id or source, title) with a non-empty title
  that occurs in the sequence. The record is the first item with that key, with its rank
  replaced by the least rank that is not null and its \<open>hot_value\<close> by the greatest
  \<open>hot_value\<close> that is not null among the items with that key; an item whose title is
  empty or missing makes no record. Line 286 returns these records when there is at least
  one, and the current scrape unchanged otherwise.
\<close>

theorem fold_items_one_record_per_key:
  "distinct (map fst (fold_items [] xs)) \<and>
   fst ` set (fold_items [] xs) = {item_key x |x. x \<in> set xs \<and> snd (item_key x) \<noteq> []} \<and>
   (\<forall>(k, r) \<in> set (fold_items [] xs).
      snd k \<noteq> [] \<and> occurrences k xs \<noteq> [] \<and> item_key r = k \<and>
      r = (hd (occurrences k xs))\<lparr> rank := best_rank (occurrences k xs),
                                    hot_value := best_hot (occurrences k xs) \<rparr>) \<and>
   select_merged (fold_items [] xs) news_list =
     (if \<exists>x \<in> set xs. snd (item_key x) \<noteq> [] then map snd (fold_items [] xs) else news_list)"
proof -
  have d: "distinct (map fst (fold_items [] xs))"
    by (rule distinct_fold_items) simp
  have keys: "fst ` set (fold_items [] xs) =
      {item_key x |x. x \<in> set xs \<and> snd (item_key x) \<noteq> []}"
    by (simp add: keys_fold_items)
  have recs: "snd k \<noteq> [] \<and> occurrences k xs \<noteq> [] \<and> item_key r = k \<and>
      r = (hd (occurrences k xs))\<lparr> rank := best_rank (occurrences k xs),
                                    hot_value := best_hot (occurrences k xs) \<rparr>"
    if "(k, r) \<in> set (fold_items [] xs)" for k r
  proof -
    from d that have "map_of (fold_items [] xs) k = Some r" by simp
    then have *: "snd k \<noteq> [] \<and> occurrences k xs \<noteq> [] \<and>
         r = (hd (occurrences k xs))\<lparr> rank := best_rank (occurrences k xs),
                                       hot_value := best_hot (occurrences k xs) \<rparr>"
      by (rule map_of_fold_items_empty)
    then have "item_key r = item_key (hd (occurrences k xs))"
      by (simp add: item_key_def)
    with * show ?thesis by (simp add: hd_occurrences_key)
  qed
  have sel: "select_merged (fold_items [] xs) news_list =
     (if \<exists>x \<in> set xs. snd (item_key x) \<noteq> [] then map snd (fold_items [] xs) else news_list)"
    using fold_items_nonempty [of xs] by (simp add: select_merged_def)
  from d keys recs sel show ?thesis by blast
qed

theorem fold_items_one_record_per_key_witness:
  "((''weibo'', ''X''), weibo_item (Some ''X'') 1 80)
     \<in> set (fold_items [] [weibo_item (Some ''X'') 3 50, weibo_item (Some ''X'') 1 80]) \<and>
   weibo_item (Some ''X'') 1 80 =
     (hd (occurrences (''weibo'', ''X'')
        [weibo_item (Some ''X'') 3 50, weibo_item (Some ''X'') 1 80]))
       \<lparr> rank := best_rank (occurrences (''weibo'', ''X'')
                   [weibo_item (Some ''X'') 3 50, weibo_item (Some ''X'') 1 80]),
         hot_value := best_hot (occurrences (''weibo'', ''X'')
                   [weibo_item (Some ''X'') 3 50, weibo_item (Some ''X'') 1 80]) \<rparr> \<and>
   select_merged (fold_items [] [weibo_item (Some ''X'') 3 50, weibo_item (Some ''X'') 1 80]) []
     = [weibo_item (Some ''X'') 1 80]"
proof -
  have m: "((''weibo'', ''X''), weibo_item (Some ''X'') 1 80)
     \<in> set (fold_items [] [weibo_item (Some ''X'') 3 50, weibo_item (Some ''X'') 1 80])"
    by (simp add: fold_items_def fold_item_def item_key_def weibo_item_def keep_better_def
        better_rank_def better_hot_def)
  have v: "map snd (fold_items [] [weibo_item (Some ''X'') 3 50, weibo_item (Some ''X'') 1 80])
      = [weibo_item (Some ''X'') 1 80]"
    by (simp add: fold_items_def fold_item_def item_key_def weibo_item_def keep_better_def
        better_rank_def better_hot_def)
  have k: "\<exists>x \<in> set [weibo_item (Some ''X'') 3 50, weibo_item (Some ''X'') 1 80].
      snd (item_key x) \<noteq> []"
    by (simp add: item_key_def weibo_item_def)
  from fold_items_one_record_per_key
    [of "[weibo_item (Some ''X'') 3 50, weibo_item (Some ''X'') 1 80]" "[]"] m v k
  show ?thesis by auto
qed

text \<open>
  Claim C1, as stated, fails: a scrape whose only item has no title is saved, the merge
  finds no record, and the node returns the scrape, in which the item without title
  appears.
\<close>

theorem untitled_item_in_merged_output_counterexample:
  "returned (spider_tail (working_dir []) 0 0 [weibo_item None 1 0]) = Inr [weibo_item None 1 0]
   \<and> snd (item_key (weibo_item None 1 0)) = []"
  by (simp add: spider_tail_def working_dir_def save_snapshot_def try_except_def write_file_def
      get_beijing_time_def merge_snapshots_def try_merge_def merge_body_def minus_hours_def dt_less_def
      returned_def item_key_def weibo_item_def)











text \<open>The loop over a directory listed in two parts.\<close>

lemma load_files_append:
  "load_files cutoff (xs @ ys) agg =
     (case load_files cutoff xs agg of Inl e \<Rightarrow> Inl e | Inr a \<Rightarrow> load_files cutoff ys a)"
  by (induction xs arbitrary: agg) (auto split: sum.splits bool.splits)

text \<open>A directory of corrupt files: the loop raises or leaves the dictionary as it was.\<close>

lemma load_files_all_corrupt:
  assumes "\<forall>p \<in> set fs. body p = InvalidJson"
  shows "(\<exists>e. load_files cutoff fs agg = Inl e) \<or> load_files cutoff fs agg = Inr agg"
  using assms by (induction fs) (auto split: sum.splits bool.splits)

lemma try_merge_total:
  "\<exists>merged_list msgs. try_merge cutoff fs news_list = Inr (merged_list, msgs)"
  by (cases "load_files cutoff fs []")
     (simp_all add: try_merge_def try_except_def merge_body_def Let_def)

text \<open>
  Claim C3, as amended. A file whose name does not parse is skipped and the loop goes on
  with the remaining files. A file that the window test lets through and whose content
  is not JSON is not skipped: \<open>json.load\<close> raises outside the per-file \<open>try\<close>, the loop
  ends there whatever files remain, the handler of line 288 catches the exception, and
  the merge returns the current scrape; no error is thrown.
\<close>

theorem corrupt_file_ends_the_load:
  "(fname q = Foreign s \<longrightarrow> load_files cutoff (q # ps) agg = load_files cutoff ps agg) \<and>
   (load_files cutoff pre [] = Inr agg' \<and> fname p = Stamped t \<and>
    dt_less \<lparr> wall = t, utcoffset = None \<rparr> cutoff = Inr False \<and> body p = InvalidJson
      \<longrightarrow> load_files cutoff (pre @ p # ps) [] = Inl JSONDecodeError \<and>
          try_merge cutoff (pre @ p # ps) news_list
            = Inr (news_list, [MergeFailed JSONDecodeError]))"
proof (intro conjI impI)
  assume "fname q = Foreign s"
  then show "load_files cutoff (q # ps) agg = load_files cutoff ps agg" by simp
next
  assume h: "load_files cutoff pre [] = Inr agg' \<and> fname p = Stamped t \<and>
    dt_less \<lparr> wall = t, utcoffset = None \<rparr> cutoff = Inr False \<and> body p = InvalidJson"
  then have "load_files cutoff (p # ps) agg' = Inl JSONDecodeError" by simp
  with h show l: "load_files cutoff (pre @ p # ps) [] = Inl JSONDecodeError"
    by (simp add: load_files_append)
  then show "try_merge cutoff (pre @ p # ps) news_list
            = Inr (news_list, [MergeFailed JSONDecodeError])"
    by (simp add: try_merge_def try_except_def merge_body_def)
qed

theorem corrupt_file_ends_the_load_witness:
  "load_files \<lparr> wall = 28800, utcoffset = None \<rparr> [snapshot 100000 [weibo_item (Some ''Y'') 1 7]] []
     = Inr [((''weibo'', ''Y''), weibo_item (Some ''Y'') 1 7)] \<and>
   dt_less \<lparr> wall = 110000, utcoffset = None \<rparr> \<lparr> wall = 28800, utcoffset = None \<rparr> = Inr False \<and>
   try_merge \<lparr> wall = 28800, utcoffset = None \<rparr>
      ([snapshot 100000 [weibo_item (Some ''Y'') 1 7]]
         @ \<lparr> fname = Stamped 110000, body = InvalidJson \<rparr>
         # [snapshot 115200 [weibo_item (Some ''X'') 1 5]])
      [weibo_item (Some ''X'') 1 5]
     = Inr ([weibo_item (Some ''X'') 1 5], [MergeFailed JSONDecodeError])"
proof -
  have a: "load_files \<lparr> wall = 28800, utcoffset = None \<rparr>
      [snapshot 100000 [weibo_item (Some ''Y'') 1 7]] []
     = Inr [((''weibo'', ''Y''), weibo_item (Some ''Y'') 1 7)]"
    by (simp add: snapshot_def dt_less_def fold_items_def fold_item_def item_key_def
        weibo_item_def)
  have b: "dt_less \<lparr> wall = 110000, utcoffset = None \<rparr> \<lparr> wall = 28800, utcoffset = None \<rparr>
      = Inr False"
    by (simp add: dt_less_def)
  from corrupt_file_ends_the_load
    [where cutoff = "\<lparr> wall = 28800, utcoffset = None \<rparr>"
       and pre = "[snapshot 100000 [weibo_item (Some ''Y'') 1 7]]"
       and agg' = "[((''weibo'', ''Y''), weibo_item (Some ''Y'') 1 7)]"
       and p = "\<lparr> fname = Stamped 110000, body = InvalidJson \<rparr>" and t = 110000
       and ps = "[snapshot 115200 [weibo_item (Some ''X'') 1 5]]"
       and news_list = "[weibo_item (Some ''X'') 1 5]"]
    a b
  show ?thesis by simp
qed

text \<open>
  Claim C3, as stated, fails: with one well-formed snapshot (item Y) and one file that is
  not JSON in the directory, the node returns the current scrape (item X) and not the
  items of the well-formed snapshot.
\<close>

theorem corrupt_file_not_skipped_counterexample:
  "returned (spider_tail
      (working_dir [snapshot 100000 [weibo_item (Some ''Y'') 1 7],
                    \<lparr> fname = Stamped 110000, body = InvalidJson \<rparr>])
      86400 86400 [weibo_item (Some ''X'') 1 5]) = Inr [weibo_item (Some ''X'') 1 5]
   \<and> weibo_item (Some ''Y'') 1 7 \<noteq> weibo_item (Some ''X'') 1 5"
  by (simp add: spider_tail_def working_dir_def save_snapshot_def try_except_def write_file_def
      get_beijing_time_def merge_snapshots_def try_merge_def merge_body_def minus_hours_def
      dt_less_def returned_def snapshot_def weibo_item_def)

text \<open>
  Claim C4, evaluated where it fails. The directory holds a snapshot with item Y written
  half an hour before the current run, which scraped item X. The comparison of the naive
  \<open>dt\<close> with the aware \<open>cutoff\<close> raises on the first file whose name parses; the snapshot
  inside the window is not folded, and the node returns the current scrape alone.
\<close>

theorem in_window_snapshot_not_folded:
  "load_files (minus_hours (get_beijing_time 86401) 24)
      [snapshot 113400 [weibo_item (Some ''Y'') 1 7], snapshot 115200 [weibo_item (Some ''X'') 1 5]] []
     = Inl TypeError \<and>
   spider_tail (working_dir [snapshot 113400 [weibo_item (Some ''Y'') 1 7]])
      86400 86401 [weibo_item (Some ''X'') 1 5]
     = Inr (working_dir [snapshot 113400 [weibo_item (Some ''Y'') 1 7],
                         snapshot 115200 [weibo_item (Some ''X'') 1 5]],
            [MergeFailed TypeError],
            [weibo_item (Some ''X'') 1 5])"
  by (simp add: spider_tail_def working_dir_def save_snapshot_def try_except_def write_file_def
      get_beijing_time_def merge_snapshots_def try_merge_def merge_body_def minus_hours_def dt_less_def
      snapshot_def)

text \<open>
  Claim C5, as amended. When the directory cannot be created, the file cannot be opened,
  or writing it fails after it was opened, the handler of line 241 catches the exception
  and prints it; the caller sees no error. The node goes on with the merge over the
  directory as the failed save left it: unchanged when the directory or the file could
  not be created, and holding the partly written snapshot file when the write failed.
\<close>

theorem save_failure_not_surfaced:
  assumes "save_fault st \<noteq> NoFault"
  shows "\<exists>e st' merged_list msgs.
           save_snapshot st (get_beijing_time clock_save) news_list = (st', Inl e) \<and>
           merge_snapshots clock_merge (files st') news_list = Inr (merged_list, msgs) \<and>
           spider_tail st clock_save clock_merge news_list
             = Inr (st', SaveFailed e # msgs, merged_list) \<and>
           (save_fault st = MkdirFails \<or> save_fault st = OpenFails \<longrightarrow> st' = st \<and> e = OSError) \<and>
           (\<forall>e' left. save_fault st = WriteFails e' left \<longrightarrow>
              e = e' \<and>
              files st' = write_file
                \<lparr> fname = Stamped (wall (get_beijing_time clock_save)), body = left \<rparr> (files st))"
proof -
  from assms obtain e st' where s:
    "save_snapshot st (get_beijing_time clock_save) news_list = (st', Inl e)"
    and u: "save_fault st = MkdirFails \<or> save_fault st = OpenFails \<longrightarrow> st' = st \<and> e = OSError"
    and w: "\<forall>e' left. save_fault st = WriteFails e' left \<longrightarrow>
              e = e' \<and>
              files st' = write_file
                \<lparr> fname = Stamped (wall (get_beijing_time clock_save)), body = left \<rparr> (files st)"
    by (cases "save_fault st") (auto simp: save_snapshot_def)
  obtain msgs where m: "merge_snapshots clock_merge (files st') news_list = Inr (news_list, msgs)"
    using merge_snapshots_news by blast
  from s m have "spider_tail st clock_save clock_merge news_list
      = Inr (st', SaveFailed e # msgs, news_list)"
    by (simp add: spider_tail_def)
  with s m u w show ?thesis by blast
qed

theorem save_failure_not_surfaced_witness:
  "save_fault \<lparr> save_fault = WriteFails UnicodeEncodeError InvalidJson, files = [] \<rparr> \<noteq> NoFault \<and>
   (\<exists>msgs merged_list.
      spider_tail \<lparr> save_fault = WriteFails UnicodeEncodeError InvalidJson, files = [] \<rparr> 0 0
          [weibo_item (Some ''X'') 1 5]
        = Inr (\<lparr> save_fault = WriteFails UnicodeEncodeError InvalidJson,
                 files = [\<lparr> fname = Stamped 28800, body = InvalidJson \<rparr>] \<rparr>,
               SaveFailed UnicodeEncodeError # msgs, merged_list))"
proof -
  have h: "save_fault \<lparr> save_fault = WriteFails UnicodeEncodeError InvalidJson, files = [] \<rparr>
      \<noteq> NoFault" by simp
  have s: "save_snapshot \<lparr> save_fault = WriteFails UnicodeEncodeError InvalidJson, files = [] \<rparr>
        (get_beijing_time 0) [weibo_item (Some ''X'') 1 5]
      = (\<lparr> save_fault = WriteFails UnicodeEncodeError InvalidJson,
            files = [\<lparr> fname = Stamped 28800, body = InvalidJson \<rparr>] \<rparr>, Inl UnicodeEncodeError)"
    by (simp add: save_snapshot_def write_file_def get_beijing_time_def)
  from save_failure_not_surfaced [OF h, of 0 "[weibo_item (Some ''X'') 1 5]" 0] h s
  show ?thesis by auto
qed

text \<open>
  Claim C5, as stated, fails: the directory cannot be created, and the node returns
  normally, with the failure only in what it printed.
\<close>

theorem save_failure_swallowed_counterexample:
  "spider_tail \<lparr> save_fault = MkdirFails, files = [] \<rparr> 0 0 [weibo_item (Some ''X'') 1 5]
     = Inr (\<lparr> save_fault = MkdirFails, files = [] \<rparr>,
            [SaveFailed OSError, MergedCount 1],
            [weibo_item (Some ''X'') 1 5])"
  by (simp add: spider_tail_def save_snapshot_def try_except_def
      get_beijing_time_def merge_snapshots_def try_merge_def merge_body_def minus_hours_def
      select_merged_def)

text \<open>
  Claim C6, as amended. Whatever the current items and the directory hold, the merge
  returns a value and raises nothing, for every cutoff, and so does the node. When the
  directory is empty, when every file is corrupt, or when the loop over the files
  raises, the value is the current items as they were scraped: they are not folded, so
  items without title and several items of one key stay in the list.
\<close>

theorem merge_never_raises:
  "(\<exists>merged_list msgs. try_merge cutoff fs news_list = Inr (merged_list, msgs)) \<and>
   (\<exists>st' msgs merged_list.
      spider_tail st clock_save clock_merge news_list = Inr (st', msgs, merged_list)) \<and>
   (fs = [] \<or> (\<forall>p \<in> set fs. body p = InvalidJson) \<or>
    (\<exists>e. load_files cutoff fs [] = Inl e)
      \<longrightarrow> merged_list_of (try_merge cutoff fs news_list) = Inr news_list)"
proof (intro conjI impI)
  show "\<exists>merged_list msgs. try_merge cutoff fs news_list = Inr (merged_list, msgs)"
    by (rule try_merge_total)
  show "\<exists>st' msgs merged_list.
      spider_tail st clock_save clock_merge news_list = Inr (st', msgs, merged_list)"
    using spider_tail_total by blast
next
  assume "fs = [] \<or> (\<forall>p \<in> set fs. body p = InvalidJson) \<or>
    (\<exists>e. load_files cutoff fs [] = Inl e)"
  then have "(\<exists>e. load_files cutoff fs [] = Inl e) \<or> load_files cutoff fs [] = Inr []"
    using load_files_all_corrupt [of fs cutoff "[]"] by auto
  then show "merged_list_of (try_merge cutoff fs news_list) = Inr news_list"
    by (auto simp: merged_list_of_def try_merge_def try_except_def merge_body_def
        select_merged_def)
qed

theorem merge_never_raises_witness:
  "merged_list_of (try_merge \<lparr> wall = 28800, utcoffset = None \<rparr> []
       [weibo_item None 1 0, weibo_item (Some ''X'') 1 5, weibo_item (Some ''X'') 2 9])
     = Inr [weibo_item None 1 0, weibo_item (Some ''X'') 1 5, weibo_item (Some ''X'') 2 9] \<and>
   body \<lparr> fname = Stamped 110000, body = InvalidJson \<rparr> = InvalidJson \<and>
   merged_list_of (try_merge \<lparr> wall = 28800, utcoffset = None \<rparr>
       [\<lparr> fname = Stamped 110000, body = InvalidJson \<rparr>] [weibo_item (Some ''X'') 1 5])
     = Inr [weibo_item (Some ''X'') 1 5] \<and>
   load_files (minus_hours (get_beijing_time 86400) 24)
       [snapshot 100000 [weibo_item (Some ''Y'') 1 7]] [] = Inl TypeError \<and>
   merged_list_of (try_merge (minus_hours (get_beijing_time 86400) 24)
       [snapshot 100000 [weibo_item (Some ''Y'') 1 7]] [weibo_item (Some ''X'') 1 5])
     = Inr [weibo_item (Some ''X'') 1 5]"
proof -
  have c: "\<forall>p \<in> set [\<lparr> fname = Stamped 110000, body = InvalidJson \<rparr>]. body p = InvalidJson"
    by simp
  have l: "load_files (minus_hours (get_beijing_time 86400) 24)
       [snapshot 100000 [weibo_item (Some ''Y'') 1 7]] [] = Inl TypeError"
    by (simp add: snapshot_def dt_less_def minus_hours_def get_beijing_time_def)
  from merge_never_raises [of "\<lparr> wall = 28800, utcoffset = None \<rparr>" "[]"
      "[weibo_item None 1 0, weibo_item (Some ''X'') 1 5, weibo_item (Some ''X'') 2 9]"]
    merge_never_raises [of "\<lparr> wall = 28800, utcoffset = None \<rparr>"
      "[\<lparr> fname = Stamped 110000, body = InvalidJson \<rparr>]" "[weibo_item (Some ''X'') 1 5]"]
    merge_never_raises [of "minus_hours (get_beijing_time 86400) 24"
      "[snapshot 100000 [weibo_item (Some ''Y'') 1 7]]" "[weibo_item (Some ''X'') 1 5]"]
    c l
  show ?thesis by simp
qed

text \<open>
  Claim C6, as stated, fails: the directory cannot be created and stays empty; the node
  returns the three current items as they are, an item without title and two items of
  one key, while their aggregation is a single record.
\<close>

theorem raw_scrape_returned_counterexample:
  "returned (spider_tail \<lparr> save_fault = MkdirFails, files = [] \<rparr> 0 0
      [weibo_item None 1 0, weibo_item (Some ''X'') 1 5, weibo_item (Some ''X'') 2 9])
     = Inr [weibo_item None 1 0, weibo_item (Some ''X'') 1 5, weibo_item (Some ''X'') 2 9] \<and>
   map snd (fold_items []
      [weibo_item None 1 0, weibo_item (Some ''X'') 1 5, weibo_item (Some ''X'') 2 9])
     = [weibo_item (Some ''X'') 1 9]"
  by (simp add: spider_tail_def save_snapshot_def try_except_def returned_def
      get_beijing_time_def merge_snapshots_def try_merge_def merge_body_def minus_hours_def
      select_merged_def fold_items_def fold_item_def item_key_def weibo_item_def
      keep_better_def better_rank_def better_hot_def)

section \<open>Properties of the grouping by category\<close>

lemmas category_defs = category_order_def cat_economic_def cat_emergency_def cat_legal_def
  cat_culture_def cat_science_def cat_international_def cat_health_def cat_governance_def
  cat_livelihood_def cat_environment_def cat_other_def

lemma distinct_category_order: "distinct category_order"
  by (simp add: category_defs)

lemma length_category_order: "length category_order = 11"
  by (simp add: category_order_def)

lemma cat_other_in_order: "cat_other \<in> set category_order"
  by (simp add: category_order_def)

lemma keys_map_entry: "map fst (AList.map_entry k f xs) = map fst xs"
  by (induction xs) auto

lemma keys_place_topic: "map fst (place_topic tbc t) = map fst tbc"
  by (simp add: place_topic_def keys_map_entry)

lemma keys_foldl_place_topic: "map fst (foldl place_topic tbc ts) = map fst tbc"
  by (induction ts arbitrary: tbc) (simp_all add: keys_place_topic)

lemma keys_topics_by_category: "map fst (topics_by_category ts) = category_order"
  by (simp add: topics_by_category_def keys_foldl_place_topic comp_def)

lemma coerce_category_keys:
  "fst ` set tbc = fst ` set tbc' \<Longrightarrow> coerce_category tbc t = coerce_category tbc' t"
  by (simp add: coerce_category_def)

lemma coerce_category_filed_under:
  assumes "map fst tbc = category_order"
  shows "coerce_category tbc t = filed_under t"
proof -
  have "fst ` set tbc = set (map fst tbc)" by simp
  also have "\<dots> = set (map fst (topics_by_category []))"
    by (simp only: assms keys_topics_by_category)
  also have "\<dots> = fst ` set (topics_by_category [])" by simp
  finally show ?thesis unfolding filed_under_def by (rule coerce_category_keys)
qed

lemma filed_under_eq:
  "filed_under t =
     (if str_or (category t) cat_other \<in> set category_order
      then str_or (category t) cat_other else cat_other)"
proof -
  have "fst ` set (topics_by_category []) = set category_order"
    using keys_topics_by_category [of "[]"] by (metis set_map)
  then show ?thesis by (simp add: filed_under_def coerce_category_def)
qed

lemma filed_under_in_order: "filed_under t \<in> set category_order"
  by (simp add: filed_under_eq cat_other_in_order)

lemma map_of_foldl_place_topic:
  assumes "map fst tbc = category_order"
  shows "map_of (foldl place_topic tbc ts) c =
     (case map_of tbc c of
        None \<Rightarrow> None
      | Some b \<Rightarrow> Some (b @ filter (\<lambda>t. filed_under t = c) ts))"
  using assms
proof (induction ts arbitrary: tbc)
  case Nil
  show ?case by (simp split: option.splits)
next
  case (Cons t ts)
  have k: "map fst (place_topic tbc t) = category_order"
    by (simp add: keys_place_topic Cons.prems)
  have step: "map_of (place_topic tbc t) c =
      (case map_of tbc c of
         None \<Rightarrow> None
       | Some b \<Rightarrow> Some (if filed_under t = c then b @ [t] else b))"
    by (auto simp: place_topic_def coerce_category_filed_under [OF Cons.prems]
        AList.map_of_map_entry split: option.splits)
  show ?case
    by (simp add: Cons.IH [OF k] step split: option.splits)
qed

lemma map_of_initial_buckets:
  "map_of (map (\<lambda>c. (c, [])) cs) c = (if c \<in> set cs then Some [] else None)"
  by (induction cs) auto

lemma map_of_topics_by_category:
  "map_of (topics_by_category ts) c =
     (if c \<in> set category_order then Some (filter (\<lambda>t. filed_under t = c) ts) else None)"
proof -
  have k: "map fst (map (\<lambda>c. (c, [])) category_order) = category_order"
    by (simp add: comp_def)
  show ?thesis
    unfolding topics_by_category_def
    by (simp add: map_of_foldl_place_topic [OF k] map_of_initial_buckets)
qed


text \<open>
  Claim C8. The dictionary has the eleven categories of the taxonomy as its keys, in
  their order. Every topic is filed under exactly one of them: its own category when
  that is one of the eleven, the catch-all when its category is any other string, empty
  or missing. The bucket of a category holds the topics filed under it, all of them and
  only them, in the order of the input.
\<close>

theorem topics_grouped_by_category:
  "map fst (topics_by_category ts) = category_order \<and>
   length category_order = 11 \<and> distinct category_order \<and>
   (\<forall>c \<in> set category_order.
      map_of (topics_by_category ts) c = Some (filter (\<lambda>t. filed_under t = c) ts)) \<and>
   filed_under t =
     (case category t of
        None \<Rightarrow> cat_other
      | Some c \<Rightarrow> if c \<in> set category_order then c else cat_other) \<and>
   filed_under t \<in> set category_order \<and>
   (\<forall>t \<in> set ts. \<forall>c \<in> set category_order.
      t \<in> set (bucket_of (topics_by_category ts) c) \<longleftrightarrow> filed_under t = c)"
proof -
  have "[] \<notin> set category_order" by (simp add: category_defs)
  then have a: "filed_under t =
     (case category t of
        None \<Rightarrow> cat_other
      | Some c \<Rightarrow> if c \<in> set category_order then c else cat_other)"
    by (auto simp: filed_under_eq split: option.splits)
  have b: "\<forall>c \<in> set category_order.
      map_of (topics_by_category ts) c = Some (filter (\<lambda>t. filed_under t = c) ts)"
    by (simp add: map_of_topics_by_category)
  have c: "\<forall>t \<in> set ts. \<forall>c \<in> set category_order.
      t \<in> set (bucket_of (topics_by_category ts) c) \<longleftrightarrow> filed_under t = c"
    by (simp add: bucket_of_def map_of_topics_by_category)
  from a b c keys_topics_by_category [of ts] length_category_order distinct_category_order
    filed_under_in_order [of t]
  show ?thesis by blast
qed

theorem topics_grouped_by_category_witness:
  "cat_other \<in> set category_order \<and>
   example_topic None (HeatInt 10)
     \<in> set [example_topic (Some ''unknown'') (HeatInt 10), example_topic None (HeatInt 10),
            example_topic (Some cat_science) (HeatInt 92)] \<and>
   filed_under (example_topic None (HeatInt 10)) = cat_other \<and>
   filed_under (example_topic (Some ''unknown'') (HeatInt 10)) = cat_other \<and>
   map_of (topics_by_category
       [example_topic (Some ''unknown'') (HeatInt 10), example_topic None (HeatInt 10),
        example_topic (Some cat_science) (HeatInt 92)])
     cat_other = Some [example_topic (Some ''unknown'') (HeatInt 10), example_topic None (HeatInt 10)]"
proof -
  have o: "cat_other \<in> set category_order" by (simp add: category_order_def)
  have u: "''unknown'' \<notin> set category_order" by (simp add: category_defs)
  have n: "cat_science \<noteq> cat_other" by (simp add: cat_science_def cat_other_def)
  have sc: "cat_science \<in> set category_order" by (simp add: category_order_def)
  from topics_grouped_by_category
    [of "[example_topic (Some ''unknown'') (HeatInt 10), example_topic None (HeatInt 10),
          example_topic (Some cat_science) (HeatInt 92)]" "example_topic None (HeatInt 10)"]
    topics_grouped_by_category
    [of "[]" "example_topic (Some ''unknown'') (HeatInt 10)"]
    topics_grouped_by_category
    [of "[]" "example_topic (Some cat_science) (HeatInt 92)"]
    o u n sc
  show ?thesis by (simp add: example_topic_def)
qed

section \<open>Properties of the category order\<close>

lemma xreal_less_eq_iff: "a \<le> b \<longleftrightarrow> xpos a \<le> xpos b" for a b :: xreal
  by (simp add: less_eq_xreal_def)

lemma xreal_less_iff: "a < b \<longleftrightarrow> xpos a < xpos b" for a b :: xreal
  by (simp add: less_xreal_def)

lemma xneg_less: "xneg a < xneg b \<longleftrightarrow> b < a"
  by (cases a; cases b) (simp_all add: xreal_less_iff)

lemma xneg_eq: "xneg a = xneg b \<longleftrightarrow> a = b"
  by (cases a; cases b) simp_all

lemma xneg_le: "xneg a \<le> xneg b \<longleftrightarrow> b \<le> a"
  by (cases a; cases b) (simp_all add: xreal_less_eq_iff)

lemma float_of_error:
  "float_of v = Inl e \<Longrightarrow> e = TypeError \<or> e = ValueError \<or> e = OverflowError"
proof (cases v)
  case (HeatInt i)
  then show "float_of v = Inl e \<Longrightarrow> ?thesis"
    by (auto simp: float_of_integer_def Let_def split: if_splits)
next
  case (HeatStr x)
  then show "float_of v = Inl e \<Longrightarrow> ?thesis" by (cases x) auto
qed auto

lemma topic_heat_error: "topic_heat tt = Inl e \<Longrightarrow> e = OverflowError"
proof -
  assume t: "topic_heat tt = Inl e"
  then obtain e' where f: "float_of (heat_score tt) = Inl e'"
    by (cases "float_of (heat_score tt)") (auto simp: topic_heat_def)
  from float_of_error [OF f] t f show ?thesis
    by (auto simp: topic_heat_def)
qed

text \<open>The running maximum is the maximum, as long as no score overflows.\<close>

lemma running_max_Max:
  assumes "\<forall>tt \<in> set tts. topic_heat tt \<noteq> Inl OverflowError" and "Real 0 \<le> m"
  shows "running_max m tts = Inr (Max (insert m (counted_heat ` set tts)))"
  using assms
proof (induction tts arbitrary: m)
  case Nil
  show ?case by simp
next
  case (Cons tt tts)
  let ?S = "counted_heat ` set tts"
  have fin: "finite ?S" by simp
  from Cons.prems have no: "\<forall>tt \<in> set tts. topic_heat tt \<noteq> Inl OverflowError" by simp
  have mx: "Max (insert (max m x) ?S) = Max (insert m (insert x ?S))" for x
  proof (cases "tts = []")
    case True
    then show ?thesis by (simp add: max.commute)
  next
    case False
    then have ne: "?S \<noteq> {}" by simp
    show ?thesis by (simp add: Max_insert [OF fin ne] max.assoc)
  qed
  show ?case
  proof (cases "topic_heat tt")
    case (Inl e)
    with Cons.prems topic_heat_error [of tt e] show ?thesis by simp
  next
    case (Inr h)
    show ?thesis
    proof (cases h)
      case NaN
      with Inr have c: "counted_heat tt = Real 0" by (simp add: counted_heat_def)
      from Cons.prems(2) have "max m (Real 0) = m" by (simp add: max_def)
      with mx [of "Real 0"] have "Max (insert m (insert (Real 0) ?S)) = Max (insert m ?S)"
        by simp
      with Inr NaN c Cons.IH [OF no Cons.prems(2)] show ?thesis by simp
    next
      case (Num x)
      with Inr have c: "counted_heat tt = x" by (simp add: counted_heat_def)
      have eq: "(if x > m then x else m) = max m x"
        by (auto simp: max_def dest: less_imp_le)
      have le: "Real 0 \<le> max m x"
        using Cons.prems(2) by (simp add: le_max_iff_disj)
      from Inr Num c Cons.IH [OF no le] mx [of x] show ?thesis by (simp add: eq)
    qed
  qed
qed

lemma category_heat_representative:
  assumes "\<forall>tt \<in> set (bucket_of tbc c). topic_heat tt \<noteq> Inl OverflowError"
  shows "category_heat tbc c = Inr (representative_heat tbc c)"
  using running_max_Max [OF assms, of "Real 0"]
  by (simp add: category_heat_def representative_heat_def)

text \<open>Sorting with computed keys is sorting by the key function, when no key raises.\<close>

lemma decorate_total:
  assumes "\<forall>x \<in> set xs. key x = Inr (k x)"
  shows "decorate key xs = Inr (map (\<lambda>x. (k x, x)) xs)"
  using assms by (induction xs) simp_all

lemma insort_key_decorated:
  "insort_key fst (k x, x) (map (\<lambda>y. (k y, y)) ys)
     = map (\<lambda>y. (k y, y)) (insort_key k x ys)"
  by (induction ys) simp_all

lemma sort_key_decorated:
  "sort_key fst (map (\<lambda>y. (k y, y)) xs) = map (\<lambda>y. (k y, y)) (sort_key k xs)"
  by (induction xs) (simp_all add: insort_key_decorated)

lemma sort_by_key_total:
  assumes "\<forall>x \<in> set xs. key x = Inr (k x)"
  shows "sort_by_key key xs = Inr (sort_key k xs)"
  by (simp add: sort_by_key_def decorate_total [OF assms] sort_key_decorated comp_def)


lemma index_of_inj:
  "x \<in> set xs \<Longrightarrow> index_of xs x = index_of xs y \<Longrightarrow> x = y"
proof (induction xs)
  case Nil
  then show ?case by simp
next
  case (Cons a xs)
  then show ?case by (auto simp: index_of_def split: if_splits)
qed


lemma bucket_of_topics_by_category:
  "bucket_of (topics_by_category ts) c =
     (if c \<in> set category_order then filter (\<lambda>t. filed_under t = c) ts else [])"
  by (simp add: bucket_of_def map_of_topics_by_category)


lemma display_order_sorted:
  assumes "\<forall>c \<in> set category_order. \<forall>tt \<in> set (bucket_of tbc c).
             topic_heat tt \<noteq> Inl OverflowError"
  shows "category_display_order tbc =
     Inr (sort_key (\<lambda>c. (xneg (representative_heat tbc c), index_of category_order c))
            (filter (\<lambda>c. bucket_of tbc c \<noteq> []) category_order))"
proof -
  have "\<forall>c \<in> set (filter (\<lambda>c. bucket_of tbc c \<noteq> []) category_order).
      display_key tbc c = Inr (xneg (representative_heat tbc c), index_of category_order c)"
  proof
    fix c assume "c \<in> set (filter (\<lambda>c. bucket_of tbc c \<noteq> []) category_order)"
    with assms have "\<forall>tt \<in> set (bucket_of tbc c). topic_heat tt \<noteq> Inl OverflowError"
      by auto
    then have "category_heat tbc c = Inr (representative_heat tbc c)"
      by (rule category_heat_representative)
    then show "display_key tbc c
        = Inr (xneg (representative_heat tbc c), index_of category_order c)"
      by (simp add: display_key_def)
  qed
  then show ?thesis unfolding category_display_order_def by (rule sort_by_key_total)
qed

lemma display_key_inj:
  "inj_on (\<lambda>c. (xneg (representative_heat tbc c), index_of category_order c))
     (set category_order)"
  by (rule inj_onI) (auto dest: index_of_inj)

lemma counted_heat_cases:
  "counted_heat tt =
     (case heat_score tt of
        HeatNone \<Rightarrow> Real 0
      | HeatInt i \<Rightarrow> (case float_of_integer i of Inr (Num h) \<Rightarrow> h | _ \<Rightarrow> Real 0)
      | HeatFloat (Num h) \<Rightarrow> h
      | HeatFloat NaN \<Rightarrow> Real 0
      | HeatStr None \<Rightarrow> Real 0
      | HeatStr (Some (Num h)) \<Rightarrow> h
      | HeatStr (Some NaN) \<Rightarrow> Real 0
      | HeatOther \<Rightarrow> Real 0)"
  by (simp add: counted_heat_def topic_heat_def
      split: heat_val.splits sum.splits pyfloat.splits option.splits py_error.splits)

text \<open>
  Claim C7, as amended. Unless a heat score is an integer too large for a float, the
  displayed categories are the categories with a non-empty bucket, each once, ordered by
  descending representative heat, and among categories of equal representative heat the
  one declared earlier in \<open>category_order\<close> comes first. The representative heat of a
  category is the greatest of 0 and the heat scores of its bucket, so that negative
  scores do not count; a missing, unparsable or NaN score counts as 0.
\<close>

theorem categories_ordered_by_heat:
  assumes "\<forall>c \<in> set category_order. \<forall>tt \<in> set (bucket_of tbc c).
             topic_heat tt \<noteq> Inl OverflowError"
  shows "\<exists>out. category_display_order tbc = Inr out \<and>
     distinct out \<and>
     set out = {c \<in> set category_order. bucket_of tbc c \<noteq> []} \<and>
     sorted_wrt
       (\<lambda>a b. representative_heat tbc a > representative_heat tbc b \<or>
              (representative_heat tbc a = representative_heat tbc b \<and>
               index_of category_order a < index_of category_order b))
       out \<and>
     (\<forall>c. representative_heat tbc c
            = Max (insert (Real 0) (counted_heat ` set (bucket_of tbc c)))) \<and>
     (\<forall>tt. counted_heat tt =
        (case heat_score tt of
           HeatNone \<Rightarrow> Real 0
         | HeatInt i \<Rightarrow> (case float_of_integer i of Inr (Num h) \<Rightarrow> h | _ \<Rightarrow> Real 0)
         | HeatFloat (Num h) \<Rightarrow> h
         | HeatFloat NaN \<Rightarrow> Real 0
         | HeatStr None \<Rightarrow> Real 0
         | HeatStr (Some (Num h)) \<Rightarrow> h
         | HeatStr (Some NaN) \<Rightarrow> Real 0
         | HeatOther \<Rightarrow> Real 0))"
proof -
  let ?key = "\<lambda>c. (xneg (representative_heat tbc c), index_of category_order c)"
  let ?shown = "filter (\<lambda>c. bucket_of tbc c \<noteq> []) category_order"
  let ?out = "sort_key ?key ?shown"
  have r: "category_display_order tbc = Inr ?out"
    by (rule display_order_sorted [OF assms])
  have d: "distinct ?out" by (simp add: distinct_category_order)
  have st: "set ?out = {c \<in> set category_order. bucket_of tbc c \<noteq> []}" by auto
  have s: "sorted (map ?key ?out)" by (rule sorted_sort_key)
  have "set ?out \<subseteq> set category_order" by auto
  with display_key_inj have "inj_on ?key (set ?out)" by (rule inj_on_subset)
  with d have "distinct (map ?key ?out)" by (simp add: distinct_map)
  with s have "sorted_wrt (<) (map ?key ?out)" by (simp add: strict_sorted_iff)
  then have "sorted_wrt (\<lambda>a b. ?key a < ?key b) ?out" by (simp add: sorted_wrt_map)
  then have o: "sorted_wrt
       (\<lambda>a b. representative_heat tbc a > representative_heat tbc b \<or>
              (representative_heat tbc a = representative_heat tbc b \<and>
               index_of category_order a < index_of category_order b))
       ?out"
    by (rule sorted_wrt_mono_rel [rotated]) (auto simp: le_less xneg_less xneg_eq)
  from r d st o show ?thesis
    by (auto simp: representative_heat_def counted_heat_cases)
qed

theorem categories_ordered_by_heat_witness:
  "topic_heat (example_topic (Some cat_economic) (HeatInt 50)) \<noteq> Inl OverflowError \<and>
   topic_heat (example_topic None (HeatStr None)) \<noteq> Inl OverflowError \<and>
   topic_heat (example_topic (Some cat_science) (HeatFloat (Num (Real 92.5)))) \<noteq> Inl OverflowError \<and>
   category_display_order (topics_by_category
          [example_topic (Some cat_economic) (HeatInt 50),
           example_topic None (HeatStr None),
           example_topic (Some cat_science) (HeatFloat (Num (Real 92.5)))])
     = Inr [cat_science, cat_economic, cat_other] \<and>
   distinct [cat_science, cat_economic, cat_other]"
proof -
  let ?ts = "[example_topic (Some cat_economic) (HeatInt 50),
           example_topic None (HeatStr None),
           example_topic (Some cat_science) (HeatFloat (Num (Real 92.5)))]"
  have p: "topic_heat (example_topic (Some cat_economic) (HeatInt 50)) \<noteq> Inl OverflowError \<and>
      topic_heat (example_topic None (HeatStr None)) \<noteq> Inl OverflowError \<and>
      topic_heat (example_topic (Some cat_science) (HeatFloat (Num (Real 92.5))))
        \<noteq> Inl OverflowError"
    by (simp add: topic_heat_def example_topic_def float_of_integer_def round_to_double_def)
  then have h: "\<forall>c \<in> set category_order. \<forall>tt \<in> set (bucket_of (topics_by_category ?ts) c).
      topic_heat tt \<noteq> Inl OverflowError"
    by (auto simp: bucket_of_topics_by_category)
  have e: "category_display_order (topics_by_category ?ts)
      = Inr [cat_science, cat_economic, cat_other]"
    by code_simp
  from categories_ordered_by_heat [OF h] p e show ?thesis by auto
qed

text \<open>
  Claim C7, as stated, fails: one topic of heat -5 in the first category and one of heat
  -3 in a later one. The greatest heat score is -5 in the first bucket and -3 in the
  second, so descending heat would show the second category first; the code shows the
  first one first, since both running maxima stay at 0.0.
\<close>

theorem negative_heat_counterexample:
  "category_display_order (topics_by_category
      [example_topic (Some cat_economic) (HeatInt (- 5)),
       example_topic (Some cat_science) (HeatInt (- 3))])
     = Inr [cat_economic, cat_science] \<and>
   topic_heat (example_topic (Some cat_economic) (HeatInt (- 5))) = Inr (Num (Real (- 5))) \<and>
   topic_heat (example_topic (Some cat_science) (HeatInt (- 3))) = Inr (Num (Real (- 3))) \<and>
   Real (- 5) < Real (- 3)"
  by code_simp

text \<open>
  The conversion of integers: exact below \<open>2 ^ 53\<close>, rounded to the nearest double above,
  and an exception beyond the range of doubles, which lines 455--456 do not catch.
\<close>

lemma float_of_integer_examples:
  "float_of_integer 92 = Inr (Num (Real 92))"
  "float_of_integer (2 ^ 53 + 1) = Inr (Num (Real (2 ^ 53)))"
  "float_of_integer (2 ^ 1024) = Inl OverflowError"
  by code_simp+

section \<open>Properties of the raw rows\<close>

lemma row_source_id_nonempty: "row_source_id n \<noteq> []"
  by (cases "source_id n"; cases "source n") (auto simp: row_source_id_def)

lemma row_source_id_relabel:
  "sid \<noteq> [] \<Longrightarrow> row_source_id (n\<lparr> source_id := Some sid, source_name := nm \<rparr>) = sid"
  by (simp add: row_source_id_def)

lemma row_view_relabel:
  "row_source_id n = sid \<Longrightarrow>
   row_view (n\<lparr> source_id := Some sid, source_name := nm \<rparr>) = row_view n"
  using row_source_id_nonempty [of n]
  by (simp add: row_view_def row_source_id_relabel)

lemma rows_of_source:
  assumes "well_grouped P"
  shows "map row_view (filter (\<lambda>r. row_source_id r = s) (rows_of P))
           = map row_view (group_items P s)"
  using assms
proof (induction P)
  case Nil
  show ?case by (simp add: rows_of_def group_items_def)
next
  case (Cons g P)
  obtain sid name items where g: "g = (sid, name, items)" by (cases g)
  from Cons.prems have wg: "well_grouped P"
    and sid: "sid \<noteq> []" and its: "\<forall>n \<in> set items. row_source_id n = sid"
    and fresh: "sid \<notin> fst ` set P"
    by (auto simp: well_grouped_def g)
  have rows: "rows_of (g # P) =
      map (\<lambda>n. n\<lparr> source_id := Some sid, source_name := Some name \<rparr>) items @ rows_of P"
    by (simp add: rows_of_def g)
  have keep: "map row_view (filter (\<lambda>r. row_source_id r = s)
        (map (\<lambda>n. n\<lparr> source_id := Some sid, source_name := Some name \<rparr>) items))
      = (if sid = s then map row_view items else [])" for s
    using sid its by (induction items) (auto simp: row_source_id_relabel row_view_relabel)
  have gi: "group_items (g # P) s = (if sid = s then items else group_items P s)" for s
    by (simp add: group_items_def g)
  have none: "group_items P sid = []"
    using fresh by (simp add: group_items_def map_of_eq_None_iff [THEN iffD2])
  show ?case
  proof (cases "sid = s")
    case True
    then have s: "s = sid" by simp
    from none Cons.IH [OF wg, unfolded s]
    have "map row_view (filter (\<lambda>r. row_source_id r = sid) (rows_of P)) = []"
      by simp
    moreover from keep [of sid]
    have "map row_view (filter (\<lambda>r. row_source_id r = sid)
        (map (\<lambda>n. n\<lparr> source_id := Some sid, source_name := Some name \<rparr>) items))
      = map row_view items" by simp
    ultimately show ?thesis
      unfolding s by (simp only: rows filter_append map_append gi if_True append_Nil2 refl)
  next
    case False
    then show ?thesis by (simp add: rows keep gi Cons.IH [OF wg])
  qed
qed

lemma items_map_entry:
  assumes "\<forall>(sid, name, items) \<in> set P. sid \<noteq> [] \<and> (\<forall>m \<in> set items. row_source_id m = sid)"
  shows "\<forall>(sid, name, items) \<in> set (AList.map_entry (row_source_id n) (\<lambda>(name, items). (name, items @ [n])) P).
           sid \<noteq> [] \<and> (\<forall>m \<in> set items. row_source_id m = sid)"
  using assms by (induction P) (auto split: prod.splits)

lemma well_grouped_add:
  assumes "well_grouped P"
  shows "well_grouped (add_platform P n)"
proof (cases "row_source_id n \<in> fst ` set P")
  case False
  with assms show ?thesis
    using row_source_id_nonempty [of n]
    by (auto simp: well_grouped_def add_platform_def Let_def)
next
  case True
  then have eq: "add_platform P n =
      AList.map_entry (row_source_id n) (\<lambda>(name, items). (name, items @ [n])) P"
    by (simp add: add_platform_def Let_def)
  from assms have d: "distinct (map fst P)"
    and i: "\<forall>(sid, name, items) \<in> set P. sid \<noteq> [] \<and> (\<forall>m \<in> set items. row_source_id m = sid)"
    by (simp_all add: well_grouped_def)
  from d items_map_entry [OF i] show ?thesis
    unfolding well_grouped_def eq by (simp add: AList.distinct_map_entry)
qed

lemma group_items_add:
  "group_items (add_platform P n) s =
     (if row_source_id n = s then group_items P s @ [n] else group_items P s)"
proof (cases "row_source_id n \<in> fst ` set P")
  case False
  then have "map_of P (row_source_id n) = None" by (simp add: map_of_eq_None_iff)
  with False show ?thesis
    by (auto simp: add_platform_def Let_def group_items_def split: option.splits)
next
  case True
  then obtain v where "map_of P (row_source_id n) = Some v"
    by (metis map_of_eq_None_iff not_Some_eq)
  with True show ?thesis
    by (auto simp: add_platform_def Let_def group_items_def AList.map_of_map_entry
        split: option.splits prod.splits)
qed

lemma well_grouped_foldl:
  "well_grouped P \<Longrightarrow> well_grouped (foldl add_platform P ns)"
  by (induction ns arbitrary: P) (simp_all add: well_grouped_add)

lemma group_items_foldl:
  "group_items (foldl add_platform P ns) s
     = group_items P s @ filter (\<lambda>n. row_source_id n = s) ns"
  by (induction ns arbitrary: P) (simp_all add: group_items_add)

lemma rows_grouped_by_source:
  "map row_view (filter (\<lambda>r. row_source_id r = s) (rows_of (group_platforms news_list)))
     = map row_view (filter (\<lambda>n. row_source_id n = s) news_list)"
proof -
  have "well_grouped []" by (simp add: well_grouped_def)
  then have "well_grouped (group_platforms news_list)"
    unfolding group_platforms_def by (rule well_grouped_foldl)
  then show ?thesis
    by (simp add: rows_of_source group_platforms_def group_items_foldl)
       (simp add: group_items_def)
qed

lemma index_of_Cons:
  "index_of (a # xs) x = (if a = x then 0 else Suc (index_of xs x))"
  by (simp add: index_of_def)

lemma index_of_less: "x \<in> set xs \<Longrightarrow> index_of xs x < length xs"
  by (induction xs) (auto simp: index_of_Cons)

lemma map_of_enumerate_swap:
  "map_of (map (\<lambda>(idx, pid). (pid, idx)) (List.enumerate k xs)) x =
     (if x \<in> set xs then Some (k + index_of xs x) else None)"
  by (induction xs arbitrary: k) (auto simp: index_of_Cons)

lemma platform_sort_key_eq:
  "platform_sort_key n =
     (if row_source_id n \<in> set platform_order
      then index_of platform_order (row_source_id n) else length platform_order)"
  by (simp add: platform_sort_key_def platform_index_def map_of_enumerate_swap)

text \<open>
  Claim C9, as amended. The rows are the items grouped by source id (a row shows what its
  item holds, and the rows of one source keep their input order). They are sorted by the
  key (platform index, rank): the platform index is the position of the source id in the
  fixed list \<open>platform_order\<close>, and its length (after all listed ones) for an unlisted
  source; a missing rank counts as 9999. The sort is stable: rows of equal key keep their
  order. All unlisted sources form one group, ordered by rank. The items weibo (rank 2),
  zhihu (rank 1), other (rank 1) come out in this order.
\<close>

theorem raw_rows_sorted_by_platform_and_rank:
  "sorted (map row_key (order_raw_rows news_list)) \<and>
   mset (order_raw_rows news_list) = mset (rows_of (group_platforms news_list)) \<and>
   filter (\<lambda>r. row_key r = k) (order_raw_rows news_list)
     = filter (\<lambda>r. row_key r = k) (rows_of (group_platforms news_list)) \<and>
   map row_view (filter (\<lambda>r. row_source_id r = s) (rows_of (group_platforms news_list)))
     = map row_view (filter (\<lambda>n. row_source_id n = s) news_list) \<and>
   platform_sort_key n =
     (if row_source_id n \<in> set platform_order
      then index_of platform_order (row_source_id n) else length platform_order) \<and>
   (row_source_id n \<in> set platform_order \<longrightarrow> platform_sort_key n < length platform_order) \<and>
   (rank n = None \<longrightarrow> rank_or_9999 n = 9999) \<and>
   (\<forall>r. rank n = Some r \<and> 1 \<le> r \<longrightarrow> rank_or_9999 n = r) \<and>
   order_raw_rows [platform_item ''weibo'' (Some 2), platform_item ''zhihu'' (Some 1),
                   platform_item ''other'' (Some 1)]
     = [platform_item ''weibo'' (Some 2), platform_item ''zhihu'' (Some 1),
        platform_item ''other'' (Some 1)]"
proof -
  have a: "sorted (map row_key (order_raw_rows news_list))"
    unfolding order_raw_rows_def by (rule sorted_sort_key)
  have b: "mset (order_raw_rows news_list) = mset (rows_of (group_platforms news_list))"
    unfolding order_raw_rows_def by (rule mset_sort)
  have c: "filter (\<lambda>r. row_key r = k) (order_raw_rows news_list)
     = filter (\<lambda>r. row_key r = k) (rows_of (group_platforms news_list))"
    unfolding order_raw_rows_def by (rule sort_key_stable)
  have e: "row_source_id n \<in> set platform_order \<longrightarrow> platform_sort_key n < length platform_order"
    by (simp add: platform_sort_key_eq index_of_less)
  have f: "rank n = None \<longrightarrow> rank_or_9999 n = 9999"
    by (simp add: rank_or_9999_def)
  have g: "\<forall>r. rank n = Some r \<and> 1 \<le> r \<longrightarrow> rank_or_9999 n = r"
    by (auto simp: rank_or_9999_def)
  have h: "order_raw_rows [platform_item ''weibo'' (Some 2), platform_item ''zhihu'' (Some 1),
                   platform_item ''other'' (Some 1)]
     = [platform_item ''weibo'' (Some 2), platform_item ''zhihu'' (Some 1),
        platform_item ''other'' (Some 1)]"
    by (simp add: order_raw_rows_def group_platforms_def add_platform_def rows_of_def
        row_key_def platform_sort_key_eq platform_order_def row_source_id_def
        rank_or_9999_def platform_item_def index_of_def Let_def)
  from a b c rows_grouped_by_source [of s news_list] platform_sort_key_eq [of n] e f g h
  show ?thesis by blast
qed

theorem raw_rows_sorted_by_platform_and_rank_witness:
  "row_source_id (platform_item ''zhihu'' None) \<in> set platform_order \<and>
   rank (platform_item ''zhihu'' None) = None \<and>
   platform_sort_key (platform_item ''zhihu'' None) < length platform_order \<and>
   rank_or_9999 (platform_item ''zhihu'' None) = 9999"
proof -
  have m: "row_source_id (platform_item ''zhihu'' None) \<in> set platform_order"
    by (simp add: row_source_id_def platform_item_def platform_order_def)
  have r: "rank (platform_item ''zhihu'' None) = None"
    by (simp add: platform_item_def)
  from raw_rows_sorted_by_platform_and_rank [of "[]" _ _ "platform_item ''zhihu'' None"] m r
  show ?thesis by blast
qed

text \<open>
  Claim C9, as stated, fails: two rows of unlisted platforms are reordered by rank, so
  their relative input order is not preserved.
\<close>

theorem unlisted_rows_reordered_counterexample:
  "order_raw_rows [platform_item ''36kr'' (Some 2), platform_item ''sspai'' (Some 1)]
     = [platform_item ''sspai'' (Some 1), platform_item ''36kr'' (Some 2)] \<and>
   ''36kr'' \<notin> set platform_order \<and> ''sspai'' \<notin> set platform_order"
  by (simp add: order_raw_rows_def group_platforms_def add_platform_def rows_of_def
      row_key_def platform_sort_key_eq platform_order_def row_source_id_def
      rank_or_9999_def platform_item_def index_of_def Let_def)

end
